theory Spec2Isabelle
  imports Main
begin

section \<open>JavaScript values and strings\<close>

text \<open>
  The gateway (\<^verbatim>\<open>src/index.ts\<close>; the file holds three variants of the worker, and the
  last one, lines 377--683, is the one embedded here) handles bodies of type \<^verbatim>\<open>any\<close>
  obtained from \<^verbatim>\<open>JSON.parse\<close>.  A value is one of the JSON shapes, or \<^verbatim>\<open>undefined\<close>
  (the result of reading a property that is not there).

  Strings are lists of 8-bit characters (code units below 256).  Numbers are the integers:
  every falsy number (\<^verbatim>\<open>0\<close>, \<^verbatim>\<open>-0\<close>) is the integer 0, counters are exact (an IEEE
  double is exact below \<open>2 ^ 53\<close>) and print in decimal (as \<^verbatim>\<open>String\<close> does below
  \<open>10 ^ 21\<close>); numbers with a fraction are not covered, and the one the program itself
  uses, the default temperature 0.7, has a constructor of its own below.  Objects are
  association lists read at the first entry of a key.
\<close>

datatype jsval =
    JUndefined
  | JNull
  | JBool bool
  | JNum int
  | JStr string
  | JArr "jsval list"
  | JObj "(string \<times> jsval) list"

text \<open>\<^verbatim>\<open>v?.k\<close>: only an object has properties of its own among the keys the program reads.\<close>

fun jget :: "jsval \<Rightarrow> string \<Rightarrow> jsval" where
  "jget (JObj kvs) k = (case map_of kvs k of Some v \<Rightarrow> v | None \<Rightarrow> JUndefined)"
| "jget _ k = JUndefined"

text \<open>\<^verbatim>\<open>v?.[0]\<close>\<close>

fun index0 :: "jsval \<Rightarrow> jsval" where
  "index0 (JArr (x # xs)) = x"
| "index0 (JStr (c # cs)) = JStr [c]"
| "index0 (JObj kvs) = jget (JObj kvs) ''0''"
| "index0 _ = JUndefined"

text \<open>Truthiness (\<^verbatim>\<open>!v\<close> is its negation).\<close>

fun truthy :: "jsval \<Rightarrow> bool" where
  "truthy JUndefined = False"
| "truthy JNull = False"
| "truthy (JBool b) = b"
| "truthy (JNum n) = (n \<noteq> 0)"
| "truthy (JStr s) = (s \<noteq> [])"
| "truthy (JArr xs) = True"
| "truthy (JObj kvs) = True"

text \<open>\<^verbatim>\<open>v ?? d\<close>\<close>

definition nullish :: "jsval \<Rightarrow> bool" where
  "nullish v = (v = JUndefined \<or> v = JNull)"

definition orElse :: "jsval \<Rightarrow> jsval \<Rightarrow> jsval" where
  "orElse v d = (if nullish v then d else v)"

subsection \<open>Decimal numerals\<close>

definition digit_char :: "nat \<Rightarrow> char" where
  "digit_char d = char_of (48 + d)"

fun nat_to_dec :: "nat \<Rightarrow> string" where
  "nat_to_dec n =
     (if n < 10 then [digit_char n] else nat_to_dec (n div 10) @ [digit_char (n mod 10)])"

declare nat_to_dec.simps [simp del]

text \<open>\<^verbatim>\<open>String(n)\<close> for an integral number.\<close>

definition int_to_dec :: "int \<Rightarrow> string" where
  "int_to_dec i = (if i < 0 then CHR ''-'' # nat_to_dec (nat (- i)) else nat_to_dec (nat i))"

definition is_digit :: "char \<Rightarrow> bool" where
  "is_digit c = (48 \<le> (of_char c :: nat) \<and> (of_char c :: nat) \<le> 57)"

definition digit_val :: "char \<Rightarrow> nat" where
  "digit_val c = of_char c - 48"

text \<open>White space of \<^verbatim>\<open>trim\<close> and \<^verbatim>\<open>parseInt\<close> among the code units below 256:
  TAB, LF, VT, FF, CR, space, NBSP.\<close>

definition is_space :: "char \<Rightarrow> bool" where
  "is_space c = ((of_char c :: nat) \<in> {9, 10, 11, 12, 13, 32, 160})"

definition dec_value :: "string \<Rightarrow> nat" where
  "dec_value ds = foldl (\<lambda>a c. 10 * a + digit_val c) 0 ds"

text \<open>
  \<^verbatim>\<open>parseInt(s, 10)\<close>: leading white space is skipped, one sign is read, then the longest
  run of digits; with no digit the result is \<^verbatim>\<open>NaN\<close>, here \<open>None\<close>.
\<close>

definition parseInt :: "string \<Rightarrow> int option" where
  "parseInt s =
     (let t = dropWhile is_space s;
          neg = (t \<noteq> [] \<and> hd t = CHR ''-'');
          u = (if t \<noteq> [] \<and> (hd t = CHR ''-'' \<or> hd t = CHR ''+'') then tl t else t);
          ds = takeWhile is_digit u
      in if ds = [] then None
         else Some (if neg then - int (dec_value ds) else int (dec_value ds)))"

section \<open>The outside world\<close>

text \<open>
  Everything the handler does to its surroundings is an event of a trace: the reads and
  writes of the key-value store, the reading of the request body, and the upstream
  requests.  Upstream answers are scripted: the \<open>n\<close>-th \<^verbatim>\<open>fetch\<close> of a run gets the
  \<open>n\<close>-th entry of the script, and a rejected \<^verbatim>\<open>fetch\<close> (or an exhausted script) is
  \<open>Rejected\<close>.  The store is reliable; an entry written with \<^verbatim>\<open>expirationTtl\<close> is
  readable until that many seconds have passed.
\<close>

record response =
  status :: nat
  body_text :: "string option"  \<comment> \<open>\<^verbatim>\<open>res.text()\<close>, \<open>None\<close> when it rejects\<close>
  body_json :: "jsval option"  \<comment> \<open>\<^verbatim>\<open>res.json()\<close>, \<open>None\<close> when it rejects\<close>

definition ok :: "response \<Rightarrow> bool" where
  "ok r = (200 \<le> status r \<and> status r \<le> 299)"

datatype fetch_result = Rejected | Answered response

datatype temperature = DefaultTemperature  \<comment> \<open>the literal 0.7\<close> | Temperature jsval

record groq_request =
  model :: string
  messages :: jsval
  temperature :: temperature
  max_tokens :: jsval
  stream :: bool

record turn =
  role :: string
  parts :: "string list"

record gemini_body =
  contents :: "turn list"
  generationConfig :: "(string \<times> jsval) list"

datatype request =
    GroqModels
  | GroqChat groq_request
  | GeminiModels
  | GeminiChat string gemini_body

datatype event =
    KvGet string
  | KvPut string string nat
  | ReadBody
  | Fetch request

record world =
  kv :: "string \<Rightarrow> (string \<times> nat) option"  \<comment> \<open>value and expiry time (ms)\<close>
  script :: "fetch_result list"
  log :: "event list"

definition kv_get :: "nat \<Rightarrow> string \<Rightarrow> world \<Rightarrow> string option \<times> world" where
  "kv_get now k w =
     ((case kv w k of
         None \<Rightarrow> None
       | Some (v, expiry) \<Rightarrow> if now < expiry then Some v else None),
      w\<lparr>log := log w @ [KvGet k]\<rparr>)"

definition kv_put :: "nat \<Rightarrow> string \<Rightarrow> string \<Rightarrow> nat \<Rightarrow> world \<Rightarrow> world" where
  "kv_put now k v ttl w =
     w\<lparr>kv := (kv w)(k \<mapsto> (v, now + 1000 * ttl)), log := log w @ [KvPut k v ttl]\<rparr>"

definition fetch :: "request \<Rightarrow> world \<Rightarrow> fetch_result \<times> world" where
  "fetch rq w =
     (case script w of
        [] \<Rightarrow> (Rejected, w\<lparr>log := log w @ [Fetch rq]\<rparr>)
      | r # rs \<Rightarrow> (r, w\<lparr>script := rs, log := log w @ [Fetch rq]\<rparr>))"

section \<open>Rate limiter\<close>

text \<open>\<^verbatim>\<open>`rl:${id || 'anon'}:${Math.floor(Date.now() / 600000)}`\<close>\<close>

definition bucket :: "string \<Rightarrow> nat \<Rightarrow> string" where
  "bucket ident now =
     ''rl:'' @ (if ident = [] then ''anon'' else ident) @ '':'' @ nat_to_dec (now div 600000)"

text \<open>
  \<^verbatim>\<open>rateLimit\<close> (lines 427--432).  \<^verbatim>\<open>NaN + 1\<close> is \<^verbatim>\<open>NaN\<close>, \<^verbatim>\<open>String(NaN)\<close> is
  \<^verbatim>\<open>"NaN"\<close> and \<^verbatim>\<open>NaN <= 60\<close> is false.
\<close>

definition rateLimit :: "nat \<Rightarrow> string \<Rightarrow> world \<Rightarrow> bool \<times> world" where
  "rateLimit now ident w =
     (let b = bucket ident now;
          (stored, w1) = kv_get now b w;
          current = map_option (\<lambda>n. n + 1)
                      (parseInt (case stored of None \<Rightarrow> ''0'' | Some s \<Rightarrow> s));
          w2 = kv_put now b (case current of None \<Rightarrow> ''NaN'' | Some n \<Rightarrow> int_to_dec n) 660 w1
      in (case current of None \<Rightarrow> False | Some n \<Rightarrow> n \<le> 60, w2))"

text \<open>The same client calling at the times \<open>ts\<close>, one call after the other.\<close>

fun admits :: "string \<Rightarrow> nat list \<Rightarrow> world \<Rightarrow> bool list \<times> world" where
  "admits ident [] w = ([], w)"
| "admits ident (t # ts) w =
     (let (a, w1) = rateLimit t ident w; (as, w2) = admits ident ts w1 in (a # as, w2))"

section \<open>Message translation\<close>

definition nl :: string where
  "nl = [CHR 0x0A]"

fun join :: "string \<Rightarrow> string list \<Rightarrow> string" where
  "join sep [] = []"
| "join sep [x] = x"
| "join sep (x # y # ys) = x @ sep @ join sep (y # ys)"

text \<open>
  \<^verbatim>\<open>String(v)\<close>.  An array prints its elements separated by commas, \<^verbatim>\<open>null\<close> and
  \<^verbatim>\<open>undefined\<close> elements as nothing; an object prints as \<^verbatim>\<open>[object Object]\<close>
  (objects with a \<^verbatim>\<open>toString\<close> or \<^verbatim>\<open>valueOf\<close> entry of their own are not
  covered).
\<close>

fun js_String :: "jsval \<Rightarrow> string" where
  "js_String JUndefined = ''undefined''"
| "js_String JNull = ''null''"
| "js_String (JBool b) = (if b then ''true'' else ''false'')"
| "js_String (JNum n) = int_to_dec n"
| "js_String (JStr s) = s"
| "js_String (JArr xs) =
     join '','' (map (\<lambda>x. if x = JUndefined \<or> x = JNull then [] else js_String x) xs)"
| "js_String (JObj kvs) = ''[object Object]''"

text \<open>\<^verbatim>\<open>s.trim()\<close>\<close>

definition js_trim :: "string \<Rightarrow> string" where
  "js_trim s = rev (dropWhile is_space (rev (dropWhile is_space s)))"

text \<open>
  The loop of \<^verbatim>\<open>openAIToGeminiBody\<close> (lines 450--463), with its two variables
  \<^verbatim>\<open>systemPrefix\<close> and \<^verbatim>\<open>contents\<close> as accumulators.
\<close>

fun walk :: "jsval list \<Rightarrow> string \<Rightarrow> turn list \<Rightarrow> string \<times> turn list" where
  "walk [] systemPrefix cs = (systemPrefix, cs)"
| "walk (m # ms) systemPrefix cs =
     (if \<not> truthy (jget m ''role'') \<or> \<not> truthy (jget m ''content'') then walk ms systemPrefix cs
      else if jget m ''role'' = JStr ''system'' then
        walk ms (systemPrefix @ (if systemPrefix \<noteq> [] then nl else [])
                   @ js_String (jget m ''content'')) cs
      else
        let r = (if jget m ''role'' = JStr ''assistant'' then ''model'' else ''user'');
            content = js_String (jget m ''content'')
        in if systemPrefix \<noteq> [] \<and> r = ''user''
           then walk ms [] (cs @ [\<lparr>role = r, parts = [systemPrefix @ nl @ nl @ content]\<rparr>])
           else walk ms systemPrefix (cs @ [\<lparr>role = r, parts = [content]\<rparr>]))"

definition is_number :: "jsval \<Rightarrow> bool" where
  "is_number v = (case v of JNum n \<Rightarrow> True | _ \<Rightarrow> False)"

text \<open>\<^verbatim>\<open>openAIToGeminiBody\<close> (lines 445--471)\<close>

definition openAIToGeminiBody :: "jsval \<Rightarrow> gemini_body" where
  "openAIToGeminiBody body =
     (let msgs = (case jget body ''messages'' of JArr ms \<Rightarrow> ms | _ \<Rightarrow> []);
          (systemPrefix, cs) = walk msgs [] [];
          cs' = (if systemPrefix \<noteq> [] then cs @ [\<lparr>role = ''user'', parts = [systemPrefix]\<rparr>]
                 else cs)
      in \<lparr>contents = cs',
          generationConfig =
            (if is_number (jget body ''temperature'')
             then [(''temperature'', jget body ''temperature'')] else [])
            @ (if is_number (jget body ''max_tokens'')
               then [(''maxOutputTokens'', jget body ''max_tokens'')] else [])\<rparr>)"

text \<open>\<^verbatim>\<open>toOpenAIResponse\<close> (lines 434--436)\<close>

definition toOpenAIResponse :: "string \<Rightarrow> jsval" where
  "toOpenAIResponse txt =
     JObj [(''choices'', JArr [JObj [(''message'', JObj [(''content'', JStr txt)])]])]"

section \<open>Decommissioned models\<close>

text \<open>
  The test \<^verbatim>\<open>/model.*(decommissioned|not found)/i\<close>: the letters match in either case,
  and the dot matches every character but a line terminator (LF and CR among the code
  units below 256).
\<close>

definition lower_code :: "char \<Rightarrow> nat" where
  "lower_code c = (if 65 \<le> (of_char c :: nat) \<and> (of_char c :: nat) \<le> 90
                   then of_char c + 32 else of_char c)"

definition ci_prefix :: "string \<Rightarrow> string \<Rightarrow> bool" where
  "ci_prefix p s = (map lower_code (take (length p) s) = map lower_code p)"

definition line_terminator :: "char \<Rightarrow> bool" where
  "line_terminator c = ((of_char c :: nat) \<in> {10, 13})"

fun dot_star_alt :: "string \<Rightarrow> bool" where
  "dot_star_alt [] = False"
| "dot_star_alt (c # cs) =
     (ci_prefix ''decommissioned'' (c # cs) \<or> ci_prefix ''not found'' (c # cs)
      \<or> (\<not> line_terminator c \<and> dot_star_alt cs))"

fun model_gone_test :: "string \<Rightarrow> bool" where
  "model_gone_test [] = False"
| "model_gone_test (c # cs) =
     ((ci_prefix ''model'' (c # cs) \<and> dot_star_alt (drop 5 (c # cs))) \<or> model_gone_test cs)"

text \<open>\<^verbatim>\<open>isDecommissionedHttp\<close> (lines 438--442)\<close>

definition isDecommissionedHttp :: "nat \<Rightarrow> string \<Rightarrow> bool" where
  "isDecommissionedHttp st body =
     (if st = 404 then True
      else if st = 400 \<and> model_gone_test body then True
      else False)"

section \<open>Model resolution\<close>

datatype preset = Speed | Quality

definition GROQ_SPEED_PRIORITY :: "string list" where
  "GROQ_SPEED_PRIORITY =
     [''llama-3.1-8b-instant'', ''llama-3.2-11b-vision'', ''llama-3.2-3b-instruct'',
      ''llama-3.3-70b-versatile'']"

definition GROQ_QUALITY_PRIORITY :: "string list" where
  "GROQ_QUALITY_PRIORITY =
     [''llama-3.3-70b-versatile'', ''llama-3.1-70b-versatile'', ''llama-3.1-8b-instant'']"

definition GEMINI_SPEED_PRIORITY :: "string list" where
  "GEMINI_SPEED_PRIORITY =
     [''gemini-2.5-flash-lite'', ''gemini-2.5-flash'', ''gemini-2.0-flash'', ''gemini-2.5-pro'']"

definition GEMINI_QUALITY_PRIORITY :: "string list" where
  "GEMINI_QUALITY_PRIORITY = [''gemini-2.5-pro'', ''gemini-2.0-pro'', ''gemini-2.5-flash'']"

datatype provider = Groq | Gemini

text \<open>
  What a provider call throws: the \<^verbatim>\<open>Error\<close>s of lines 518--609, and the rejection of
  a \<^verbatim>\<open>fetch\<close>, which no \<^verbatim>\<open>catch\<close> below the handler intercepts.
\<close>

datatype err =
    KeyMissing provider
  | HttpError provider nat string
  | JsonError provider
  | EmptyResponse provider
  | NetworkError

text \<open>\<^verbatim>\<open>xs.map((m) => m?.k).filter((s) => typeof s === 'string')\<close>\<close>

fun string_fields :: "string \<Rightarrow> jsval list \<Rightarrow> string list" where
  "string_fields k [] = []"
| "string_fields k (m # ms) =
     (case jget m k of JStr s \<Rightarrow> s # string_fields k ms | _ \<Rightarrow> string_fields k ms)"

text \<open>
  \<^verbatim>\<open>listGroqModels\<close> (lines 474--484).  \<open>groq_ids\<close> is what it makes of an answer:
  nothing when the status is not a success, and an unparsable body counts as \<^verbatim>\<open>{}\<close>.
\<close>

definition groq_ids :: "response \<Rightarrow> string list" where
  "groq_ids r =
     (if \<not> ok r then []
      else (case body_json r of
              None \<Rightarrow> []
            | Some j \<Rightarrow> (case jget j ''data'' of
                           JArr ms \<Rightarrow> string_fields ''id'' ms
                         | _ \<Rightarrow> [])))"

definition listGroqModels :: "world \<Rightarrow> (err + string list) \<times> world" where
  "listGroqModels w =
     (case fetch GroqModels w of
        (Rejected, w1) \<Rightarrow> (Inl NetworkError, w1)
      | (Answered r, w1) \<Rightarrow> (Inr (groq_ids r), w1))"

text \<open>\<^verbatim>\<open>s.replace(/^models\//, '')\<close>\<close>

definition strip_models :: "string \<Rightarrow> string" where
  "strip_models s = (if take 7 s = ''models/'' then drop 7 s else s)"

text \<open>\<^verbatim>\<open>listGeminiModels\<close> (lines 486--495)\<close>

definition gemini_ids :: "response \<Rightarrow> string list" where
  "gemini_ids r =
     (if \<not> ok r then []
      else map strip_models
             (case body_json r of
                None \<Rightarrow> []
              | Some j \<Rightarrow> (case jget j ''models'' of
                             JArr ms \<Rightarrow> string_fields ''name'' ms
                           | _ \<Rightarrow> [])))"

definition listGeminiModels :: "world \<Rightarrow> (err + string list) \<times> world" where
  "listGeminiModels w =
     (case fetch GeminiModels w of
        (Rejected, w1) \<Rightarrow> (Inl NetworkError, w1)
      | (Answered r, w1) \<Rightarrow> (Inr (gemini_ids r), w1))"

text \<open>\<^verbatim>\<open>pickFirstAvailable\<close> (lines 497--500)\<close>

fun pickFirstAvailable :: "string list \<Rightarrow> string list \<Rightarrow> string option" where
  "pickFirstAvailable [] available = None"
| "pickFirstAvailable (p # ps) available =
     (if p \<in> set available then Some p else pickFirstAvailable ps available)"

text \<open>
  The selection shared by \<^verbatim>\<open>resolveGroqModel\<close> and \<^verbatim>\<open>resolveGeminiModel\<close> once the
  catalog is there (lines 505--507 and 512--514):
  \<^verbatim>\<open>if (requested && available.includes(requested)) return requested;\<close>
  \<^verbatim>\<open>return pickFirstAvailable(priority, available) ?? (available[0] || dflt);\<close>
\<close>

definition selectModel :: "jsval \<Rightarrow> string list \<Rightarrow> string \<Rightarrow> string list \<Rightarrow> string" where
  "selectModel requested priority dflt available =
     (let other = (case pickFirstAvailable priority available of
                     Some p \<Rightarrow> p
                   | None \<Rightarrow> (case available of
                               [] \<Rightarrow> dflt
                             | a # _ \<Rightarrow> if a \<noteq> [] then a else dflt))
      in (case requested of
           JStr s \<Rightarrow> if s \<noteq> [] \<and> s \<in> set available then s else other
         | _ \<Rightarrow> other))"

text \<open>
  \<^verbatim>\<open>resolveGroqModel\<close> (lines 503--508): the catalog is fetched, then the model is
  picked from it.
\<close>

definition groq_pick :: "jsval \<Rightarrow> preset \<Rightarrow> string list \<Rightarrow> string" where
  "groq_pick requested pre available =
     selectModel requested
       (if pre = Quality then GROQ_QUALITY_PRIORITY else GROQ_SPEED_PRIORITY)
       ''llama-3.1-8b-instant'' available"

definition resolveGroqModel :: "jsval \<Rightarrow> preset \<Rightarrow> world \<Rightarrow> (err + string) \<times> world" where
  "resolveGroqModel requested pre w =
     (case listGroqModels w of
        (Inl x, w1) \<Rightarrow> (Inl x, w1)
      | (Inr available, w1) \<Rightarrow> (Inr (groq_pick requested pre available), w1))"

text \<open>\<^verbatim>\<open>resolveGeminiModel\<close> (lines 510--515)\<close>

definition gemini_pick :: "jsval \<Rightarrow> preset \<Rightarrow> string list \<Rightarrow> string" where
  "gemini_pick requested pre available =
     selectModel requested
       (if pre = Quality then GEMINI_QUALITY_PRIORITY else GEMINI_SPEED_PRIORITY)
       ''gemini-2.5-flash'' available"

definition resolveGeminiModel :: "jsval \<Rightarrow> preset \<Rightarrow> world \<Rightarrow> (err + string) \<times> world" where
  "resolveGeminiModel requested pre w =
     (case listGeminiModels w of
        (Inl x, w1) \<Rightarrow> (Inl x, w1)
      | (Inr available, w1) \<Rightarrow> (Inr (gemini_pick requested pre available), w1))"

section \<open>Provider clients\<close>

record env =
  GROQ_API_KEY :: "string option"
  GEMINI_API_KEY :: "string option"

text \<open>Truthiness of an optional secret: present and not the empty string.\<close>

definition configured :: "string option \<Rightarrow> bool" where
  "configured k = (case k of None \<Rightarrow> False | Some s \<Rightarrow> s \<noteq> [])"

text \<open>\<^verbatim>\<open>await res.text().catch(() => '')\<close>\<close>

definition text_of :: "response \<Rightarrow> string" where
  "text_of r = (case body_text r of None \<Rightarrow> [] | Some t \<Rightarrow> t)"

text \<open>Lines 561--567: the body of a successful answer of provider A.\<close>

definition groq_answer :: "response \<Rightarrow> err + jsval" where
  "groq_answer res =
     (case body_json res of
        None \<Rightarrow> Inl (JsonError Groq)
      | Some json \<Rightarrow>
          (case jget (jget (index0 (jget json ''choices'')) ''message'') ''content'' of
             JStr txt \<Rightarrow> if txt = [] then Inl (EmptyResponse Groq) else Inr (toOpenAIResponse txt)
           | _ \<Rightarrow> Inl (EmptyResponse Groq)))"

text \<open>Lines 521--527: the request for a model; the retry is \<^verbatim>\<open>{ ...req, model }\<close>.\<close>

definition groq_req :: "jsval \<Rightarrow> string \<Rightarrow> groq_request" where
  "groq_req body m =
     \<lparr>model = m,
      messages = orElse (jget body ''messages'') (JArr []),
      temperature = (if nullish (jget body ''temperature'') then DefaultTemperature
                     else Temperature (jget body ''temperature'')),
      max_tokens = jget body ''max_tokens'',
      stream = False\<rparr>"

text \<open>\<^verbatim>\<open>callGroq\<close> (lines 517--568)\<close>

definition callGroq :: "env \<Rightarrow> jsval \<Rightarrow> preset \<Rightarrow> world \<Rightarrow> (err + jsval) \<times> world" where
  "callGroq e body pre w =
     (if \<not> configured (GROQ_API_KEY e) then (Inl (KeyMissing Groq), w)
      else (case resolveGroqModel (jget body ''model'') pre w of
        (Inl x, w1) \<Rightarrow> (Inl x, w1)
      | (Inr m, w1) \<Rightarrow>
          let req = groq_req body m
          in (case fetch (GroqChat req) w1 of
               (Rejected, w2) \<Rightarrow> (Inl NetworkError, w2)
             | (Answered res, w2) \<Rightarrow>
                 if \<not> ok res then
                   if isDecommissionedHttp (status res) (text_of res) then
                     (case resolveGroqModel JUndefined pre w2 of
                       (Inl x, w3) \<Rightarrow> (Inl x, w3)
                     | (Inr m2, w3) \<Rightarrow>
                         (case fetch (GroqChat (req\<lparr>model := m2\<rparr>)) w3 of
                            (Rejected, w4) \<Rightarrow> (Inl NetworkError, w4)
                          | (Answered res2, w4) \<Rightarrow>
                              if \<not> ok res2
                              then (Inl (HttpError Groq (status res2) (text_of res2)), w4)
                              else (groq_answer res2, w4)))
                   else (Inl (HttpError Groq (status res) (text_of res)), w2)
                 else (groq_answer res, w2))))"

text \<open>Lines 602--610: the body of a successful answer of provider B.\<close>

definition gemini_answer :: "response \<Rightarrow> err + jsval" where
  "gemini_answer res =
     (case body_json res of
        None \<Rightarrow> Inl (JsonError Gemini)
      | Some json \<Rightarrow>
          let txt = (case jget (jget (index0 (jget json ''candidates'')) ''content'') ''parts'' of
                       JArr ps \<Rightarrow>
                         js_trim (join nl (map js_String
                           (filter truthy (map (\<lambda>p. orElse (jget p ''text'') (JStr [])) ps))))
                     | _ \<Rightarrow> [])
          in if txt = [] then Inl (EmptyResponse Gemini) else Inr (toOpenAIResponse txt))"

text \<open>\<^verbatim>\<open>callGemini\<close> (lines 570--611)\<close>

definition callGemini :: "env \<Rightarrow> jsval \<Rightarrow> preset \<Rightarrow> world \<Rightarrow> (err + jsval) \<times> world" where
  "callGemini e body pre w =
     (if \<not> configured (GEMINI_API_KEY e) then (Inl (KeyMissing Gemini), w)
      else (case resolveGeminiModel (jget body ''model'') pre w of
        (Inl x, w1) \<Rightarrow> (Inl x, w1)
      | (Inr m, w1) \<Rightarrow>
          let gemBody = openAIToGeminiBody body
          in (case fetch (GeminiChat m gemBody) w1 of
               (Rejected, w2) \<Rightarrow> (Inl NetworkError, w2)
             | (Answered res, w2) \<Rightarrow>
                 if \<not> ok res then
                   if isDecommissionedHttp (status res) (text_of res) then
                     (case resolveGeminiModel JUndefined pre w2 of
                       (Inl x, w3) \<Rightarrow> (Inl x, w3)
                     | (Inr m2, w3) \<Rightarrow>
                         (case fetch (GeminiChat m2 gemBody) w3 of
                            (Rejected, w4) \<Rightarrow> (Inl NetworkError, w4)
                          | (Answered res2, w4) \<Rightarrow>
                              if \<not> ok res2
                              then (Inl (HttpError Gemini (status res2) (text_of res2)), w4)
                              else (gemini_answer res2, w4)))
                   else (Inl (HttpError Gemini (status res) (text_of res)), w2)
                 else (gemini_answer res, w2))))"

section \<open>The chat endpoint\<close>

datatype failure_tag =
    RateLimited
  | GroqFailed
  | GeminiFailed
  | FallbackFailed
  | GroqFailedNoFallback
  | ServerError

text \<open>
  \<^verbatim>\<open>c.json(out)\<close> is \<open>Reply 200 out\<close>; \<^verbatim>\<open>c.json({ error: `tag:${String(e)}` }, n)\<close> is
  \<open>Failure n tag (Some e)\<close>, and \<open>Failure n tag None\<close> when the message has no detail or
  the detail is the exception of \<^verbatim>\<open>c.req.json()\<close>.
\<close>

datatype reply = Reply nat jsval | Failure nat failure_tag "err option"

text \<open>Line 645\<close>

definition presetOf :: "jsval \<Rightarrow> preset" where
  "presetOf body = (if jget body ''preset'' = JStr ''quality'' then Quality else Speed)"

text \<open>
  \<^verbatim>\<open>app.post('/v1/chat', ...)\<close> (lines 634--681).  The request is its
  \<^verbatim>\<open>X-Client-Id\<close> header, if any, and its body as \<^verbatim>\<open>c.req.json()\<close> reads it: \<open>None\<close>
  when the text is not JSON.  \<open>client_id\<close> is \<^verbatim>\<open>c.req.header('X-Client-Id') ?? 'anon'\<close>.
\<close>

definition client_id :: "string option \<Rightarrow> string" where
  "client_id header = (case header of None \<Rightarrow> ''anon'' | Some h \<Rightarrow> h)"

definition chat :: "env \<Rightarrow> nat \<Rightarrow> string option \<Rightarrow> jsval option \<Rightarrow> world \<Rightarrow> reply \<times> world" where
  "chat e now header raw w =
     (let clientId = client_id header;
          (allowed, w1) = rateLimit now clientId w
      in if \<not> allowed then (Failure 429 RateLimited None, w1)
         else
           let w2 = w1\<lparr>log := log w1 @ [ReadBody]\<rparr>
           in (case raw of
                None \<Rightarrow> (Failure 500 ServerError None, w2)
              | Some body \<Rightarrow>
                  let prov = orElse (jget body ''provider'') (JStr ''auto'');
                      pre = presetOf body
                  in if prov = JStr ''groq'' then
                       (case callGroq e body pre w2 of
                          (Inr out, w3) \<Rightarrow> (Reply 200 out, w3)
                        | (Inl x, w3) \<Rightarrow> (Failure 502 GroqFailed (Some x), w3))
                     else if prov = JStr ''gemini'' then
                       (case callGemini e body pre w2 of
                          (Inr out, w3) \<Rightarrow> (Reply 200 out, w3)
                        | (Inl x, w3) \<Rightarrow> (Failure 502 GeminiFailed (Some x), w3))
                     else
                       (case callGroq e body pre w2 of
                          (Inr out, w3) \<Rightarrow> (Reply 200 out, w3)
                        | (Inl x1, w3) \<Rightarrow>
                            if configured (GEMINI_API_KEY e) then
                              (case callGemini e body pre w3 of
                                 (Inr out, w4) \<Rightarrow> (Reply 200 out, w4)
                               | (Inl x2, w4) \<Rightarrow> (Failure 500 FallbackFailed (Some x2), w4))
                            else (Failure 502 GroqFailedNoFallback (Some x1), w3))))"

section \<open>Vocabulary of the properties\<close>

text \<open>The bucket of a window holds the count \<open>k\<close> and outlives the window.\<close>

definition counted :: "string \<Rightarrow> nat \<Rightarrow> nat \<Rightarrow> world \<Rightarrow> bool" where
  "counted ident t k w =
     (if k = 0 then kv w (bucket ident t) = None
      else (case kv w (bucket ident t) of
              None \<Rightarrow> False
            | Some (v, e) \<Rightarrow> v = nat_to_dec k \<and> 600000 * (t div 600000 + 1) \<le> e))"

text \<open>
  Calls of several clients, one after the other: a call is a client identity and a time.
  Two calls draw on the same budget when they are of the same client (a client without a
  name is the client \<^verbatim>\<open>anon\<close>) and fall in the same 10-minute window.
\<close>

fun admits_all :: "(string \<times> nat) list \<Rightarrow> world \<Rightarrow> bool list \<times> world" where
  "admits_all [] w = ([], w)"
| "admits_all (c # cs) w =
     (let (a, w1) = rateLimit (snd c) (fst c) w; (as, w2) = admits_all cs w1 in (a # as, w2))"

definition same_budget :: "string \<times> nat \<Rightarrow> string \<times> nat \<Rightarrow> bool" where
  "same_budget c d =
     ((fst c = fst d \<or> (fst c = [] \<or> fst c = ''anon'') \<and> (fst d = [] \<or> fst d = ''anon''))
      \<and> snd c div 600000 = snd d div 600000)"

text \<open>How many of the calls \<open>hist\<close> draw on the budget of the call \<open>c\<close>.\<close>

definition tally :: "(string \<times> nat) list \<Rightarrow> string \<times> nat \<Rightarrow> nat" where
  "tally hist c = length (filter (same_budget c) hist)"

text \<open>How many calls before the \<open>n\<close>-th draw on its budget.\<close>

definition earlier :: "(string \<times> nat) list \<Rightarrow> nat \<Rightarrow> nat" where
  "earlier calls n = tally (take n calls) (calls ! n)"

text \<open>A world with an empty store, nothing logged, and the given upstream answers.\<close>

definition world0 :: "fetch_result list \<Rightarrow> world" where
  "world0 sc = \<lparr>kv = Map.empty, script = sc, log = []\<rparr>"

definition answer :: "nat \<Rightarrow> jsval \<Rightarrow> fetch_result" where
  "answer st j = Answered \<lparr>status = st, body_text = Some [], body_json = Some j\<rparr>"

text \<open>The answer of provider A's model list naming the given ids.\<close>

definition groq_catalog :: "string list \<Rightarrow> fetch_result" where
  "groq_catalog ids = answer 200 (JObj [(''data'', JArr (map (\<lambda>i. JObj [(''id'', JStr i)]) ids))])"

text \<open>Answers of the chat-completion endpoints, and an environment with both secrets.\<close>

definition groq_reply :: "string \<Rightarrow> fetch_result" where
  "groq_reply t = answer 200 (toOpenAIResponse t)"

definition gemini_reply :: "string \<Rightarrow> fetch_result" where
  "gemini_reply t =
     answer 200 (JObj [(''candidates'',
       JArr [JObj [(''content'', JObj [(''parts'', JArr [JObj [(''text'', JStr t)]])])]])])"

definition refusal :: "nat \<Rightarrow> string \<Rightarrow> fetch_result" where
  "refusal st t = Answered \<lparr>status = st, body_text = Some t, body_json = None\<rparr>"

definition both_keys :: env where
  "both_keys = \<lparr>GROQ_API_KEY = Some ''gk'', GEMINI_API_KEY = Some ''mk''\<rparr>"

text \<open>A well-formed message.\<close>

definition msg :: "string \<Rightarrow> string \<Rightarrow> jsval" where
  "msg r c = JObj [(''role'', JStr r), (''content'', JStr c)]"

text \<open>The turns provider B is sent for a list of messages.\<close>

definition translate :: "jsval list \<Rightarrow> turn list" where
  "translate ms = contents (openAIToGeminiBody (JObj [(''messages'', JArr ms)]))"

definition user_turn :: "string \<Rightarrow> turn" where
  "user_turn c = \<lparr>role = ''user'', parts = [c]\<rparr>"

definition model_turn :: "string \<Rightarrow> turn" where
  "model_turn c = \<lparr>role = ''model'', parts = [c]\<rparr>"

text \<open>The contents of the messages of one role, in order.\<close>

definition contents_of :: "string \<Rightarrow> (string \<times> string) list \<Rightarrow> string list" where
  "contents_of r seg = map snd (filter (\<lambda>rc. fst rc = r) seg)"

text \<open>A run of system and assistant messages, none of them empty.\<close>

definition no_user :: "(string \<times> string) list \<Rightarrow> bool" where
  "no_user seg = list_all (\<lambda>rc. (fst rc = ''system'' \<or> fst rc = ''assistant'') \<and> snd rc \<noteq> []) seg"

text \<open>
  The translation as the specification words it (section 4.2, steps 1 to 3), on messages
  given as pairs of a role and a content.  Entries missing a role or a content are
  dropped.  Up to the first message that makes a user turn, the system contents are
  joined by newlines into the pending prefix and the assistant messages become model
  turns; that user turn takes the prefix, if there is one, before a blank line, and the
  rest is translated with no prefix pending.  When no user turn follows, a pending prefix
  is one user turn at the end.
\<close>

definition kept :: "(string \<times> string) list \<Rightarrow> (string \<times> string) list" where
  "kept ms = filter (\<lambda>rc. fst rc \<noteq> [] \<and> snd rc \<noteq> []) ms"

definition before_user :: "string \<times> string \<Rightarrow> bool" where
  "before_user rc = (fst rc = ''system'' \<or> fst rc = ''assistant'')"

function spec_turns :: "(string \<times> string) list \<Rightarrow> turn list" where
  "spec_turns ms =
     (let seg = takeWhile before_user ms;
          sys = contents_of ''system'' seg;
          models = map model_turn (contents_of ''assistant'' seg)
      in case dropWhile before_user ms of
           [] \<Rightarrow> models @ (if sys = [] then [] else [user_turn (join nl sys)])
         | rc # rest \<Rightarrow>
             models
             @ [user_turn (if sys = [] then snd rc else join nl sys @ nl @ nl @ snd rc)]
             @ spec_turns rest)"
  by pat_completeness auto
termination
proof (relation "measure length")
  show "wf (measure length)" by simp
next
  fix ms :: "(string \<times> string) list" and seg sys models rc rest
  assume "dropWhile before_user ms = rc # rest"
  then have "length (rc # rest) \<le> length ms"
    using length_dropWhile_le [of before_user ms] by simp
  then show "(rest, ms) \<in> measure length" by simp
qed

declare spec_turns.simps [simp del]

text \<open>The provider an event contacts, and whether a run from \<open>w\<close> to \<open>w'\<close> contacted it.\<close>

fun contacted :: "event \<Rightarrow> provider option" where
  "contacted (Fetch GroqModels) = Some Groq"
| "contacted (Fetch (GroqChat rq)) = Some Groq"
| "contacted (Fetch GeminiModels) = Some Gemini"
| "contacted (Fetch (GeminiChat m b)) = Some Gemini"
| "contacted _ = None"

definition contacts :: "provider \<Rightarrow> event list \<Rightarrow> nat" where
  "contacts p evs = length (filter (\<lambda>ev. contacted ev = Some p) evs)"

text \<open>The model ids of the chat-completion requests of a trace, in order.\<close>

fun chat_models :: "event list \<Rightarrow> string list" where
  "chat_models [] = []"
| "chat_models (Fetch (GroqChat rq) # evs) = model rq # chat_models evs"
| "chat_models (Fetch (GeminiChat m b) # evs) = m # chat_models evs"
| "chat_models (ev # evs) = chat_models evs"


section \<open>Decimal numerals round-trip\<close>

lemma of_char_digit_char: "d < 10 \<Longrightarrow> (of_char (digit_char d) :: nat) = 48 + d"
  by (simp add: digit_char_def)

lemma is_digit_digit_char: "d < 10 \<Longrightarrow> is_digit (digit_char d)"
  by (simp add: is_digit_def of_char_digit_char)

lemma digit_val_digit_char: "d < 10 \<Longrightarrow> digit_val (digit_char d) = d"
  by (simp add: digit_val_def of_char_digit_char)

lemma nat_to_dec_nonempty: "nat_to_dec n \<noteq> []"
  by (subst nat_to_dec.simps) simp

lemma nat_to_dec_digits: "c \<in> set (nat_to_dec n) \<Longrightarrow> is_digit c"
proof (induction n arbitrary: c rule: nat_to_dec.induct)
  case (1 n)
  show ?case
  proof (cases "n < 10")
    case True
    with "1.prems" show ?thesis
      by (subst (asm) nat_to_dec.simps) (simp add: is_digit_digit_char)
  next
    case False
    from "1.prems" have "c \<in> set (nat_to_dec (n div 10)) \<or> c = digit_char (n mod 10)"
      by (subst (asm) nat_to_dec.simps) (auto simp: False)
    then show ?thesis
      using "1.IH" [OF False] by (auto simp: is_digit_digit_char)
  qed
qed

lemma dec_value_snoc: "dec_value (ds @ [c]) = 10 * dec_value ds + digit_val c"
  by (simp add: dec_value_def)

lemma dec_value_nat_to_dec: "dec_value (nat_to_dec n) = n"
proof (induction n rule: nat_to_dec.induct)
  case (1 n)
  show ?case
  proof (cases "n < 10")
    case True
    then show ?thesis
      by (subst nat_to_dec.simps) (simp add: dec_value_def digit_val_digit_char)
  next
    case False
    then show ?thesis
      using "1.IH" [OF False]
      by (subst nat_to_dec.simps) (simp add: dec_value_snoc digit_val_digit_char)
  qed
qed

lemma digit_not_space: "is_digit c \<Longrightarrow> \<not> is_space c"
  by (auto simp: is_digit_def is_space_def)

lemma digit_not_sign: "is_digit c \<Longrightarrow> c \<noteq> CHR ''-'' \<and> c \<noteq> CHR ''+''"
  by (auto simp: is_digit_def)

lemma parseInt_nat_to_dec: "parseInt (nat_to_dec n) = Some (int n)"
proof -
  let ?s = "nat_to_dec n"
  have ne: "?s \<noteq> []" by (rule nat_to_dec_nonempty)
  have dg: "\<forall>c\<in>set ?s. is_digit c" by (simp add: nat_to_dec_digits)
  from ne dg have hd: "is_digit (hd ?s)" by (cases ?s) auto
  have t: "dropWhile is_space ?s = ?s"
    using ne hd digit_not_space by (cases ?s) auto
  have tw: "takeWhile is_digit ?s = ?s"
    using dg by simp
  show ?thesis
    using ne hd digit_not_sign [OF hd]
    by (simp add: parseInt_def t tw Let_def dec_value_nat_to_dec)
qed

lemma parseInt_zero: "parseInt ''0'' = Some 0"
  by (simp add: parseInt_def is_space_def is_digit_def dec_value_def digit_val_def)

section \<open>Rate limiter\<close>

lemma bucket_window: "t div 600000 = t' div 600000 \<Longrightarrow> bucket ident t = bucket ident t'"
  by (simp add: bucket_def)

lemma window_bounds:
  fixes d :: nat
  assumes "0 < d" and "t div d = q"
  shows "t < d * (q + 1)" and "d * (q + 1) \<le> t + d"
proof -
  have "t < d + d * (t div d)" using assms(1) by (rule dividend_less_times_div)
  then show "t < d * (q + 1)" using assms(2) by simp
  have "d * (t div d) \<le> t" by (rule times_div_less_eq_dividend)
  then show "d * (q + 1) \<le> t + d" using assms(2) by simp
qed

lemma rateLimit_counted:
  assumes "counted ident t0 k w" and "t div 600000 = t0 div 600000"
  shows "fst (rateLimit t ident w) = (k + 1 \<le> 60)
       \<and> counted ident t0 (k + 1) (snd (rateLimit t ident w))
       \<and> log (snd (rateLimit t ident w)) =
           log w @ [KvGet (bucket ident t0), KvPut (bucket ident t0) (nat_to_dec (k + 1)) 660]
       \<and> script (snd (rateLimit t ident w)) = script w"
proof -
  have b: "bucket ident t = bucket ident t0"
    using assms(2) by (rule bucket_window)
  have lt: "t < 600000 * (t0 div 600000 + 1)"
    using window_bounds(1) [of 600000 t, OF _ assms(2)] by simp
  have st: "fst (kv_get t (bucket ident t0) w) = (if k = 0 then None else Some (nat_to_dec k))"
    using assms(1) lt by (auto simp: counted_def kv_get_def split: option.splits if_splits)
  have cur: "map_option (\<lambda>n. n + 1)
               (parseInt (case fst (kv_get t (bucket ident t0) w) of None \<Rightarrow> ''0'' | Some s \<Rightarrow> s))
             = Some (int (k + 1))"
    by (simp add: st parseInt_zero parseInt_nat_to_dec)
  have ge: "600000 * (t0 div 600000 + 1) \<le> t + 1000 * 660"
    using window_bounds(2) [of 600000 t, OF _ assms(2)] by simp
  have nk: "nat (int k + 1) = Suc k" by simp
  show ?thesis
    unfolding rateLimit_def b Let_def
    using cur ge
    by (simp add: split_beta kv_put_def counted_def kv_get_def int_to_dec_def nk)
qed

text \<open>What the \<open>n\<close> calls of one window leave in the trace, the first being number \<open>k + 1\<close>.\<close>

lemma admits_counted:
  assumes "\<forall>t\<in>set ts. t div 600000 = t0 div 600000" and "counted ident t0 k w"
  shows "fst (admits ident ts w) = map (\<lambda>i. k + i + 1 \<le> 60) [0..<length ts]
       \<and> counted ident t0 (k + length ts) (snd (admits ident ts w))
       \<and> log (snd (admits ident ts w)) =
           log w @ concat (map (\<lambda>i. [KvGet (bucket ident t0),
                                     KvPut (bucket ident t0) (nat_to_dec (k + i + 1)) 660])
                             [0..<length ts])"
  using assms
proof (induction ts arbitrary: k w)
  case Nil
  then show ?case by simp
next
  case (Cons t ts)
  from Cons.prems have t: "t div 600000 = t0 div 600000" by simp
  note step = rateLimit_counted [OF Cons.prems(2) t]
  from Cons.prems(1) have rest: "\<forall>t\<in>set ts. t div 600000 = t0 div 600000" by simp
  from step have c: "counted ident t0 (k + 1) (snd (rateLimit t ident w))" by simp
  note ih = Cons.IH [OF rest c]
  have up: "[0..<length (t # ts)] = 0 # map Suc [0..<length ts]"
    by (simp add: upt_conv_Cons map_Suc_upt del: upt_Suc)
  show ?case
    using step ih unfolding up by (simp add: split_beta comp_def)
qed

text \<open>Buckets: one per client and window.\<close>

lemma colon_not_digit: "\<not> is_digit CHR '':''"
  by (simp add: is_digit_def)

lemma nat_to_dec_no_colon: "CHR '':'' \<notin> set (nat_to_dec n)"
  using nat_to_dec_digits [of "CHR '':''" n] colon_not_digit by blast

lemma nat_to_dec_inj: "nat_to_dec m = nat_to_dec n \<Longrightarrow> m = n"
  by (metis dec_value_nat_to_dec)

lemma split_at_last:
  assumes "xs @ c # ys = xs' @ c # ys'" and "c \<notin> set ys" and "c \<notin> set ys'"
  shows "xs = xs' \<and> ys = ys'"
proof -
  have "rev ys @ c # rev xs = rev ys' @ c # rev xs'"
    using arg_cong [OF assms(1), of rev] by simp
  moreover have "takeWhile (\<lambda>x. x \<noteq> c) (rev zs @ c # rev us) = rev zs" if "c \<notin> set zs" for zs us
    using that by (auto simp: takeWhile_tail)
  ultimately have "rev ys = rev ys'"
    using assms(2,3) by metis
  then have "ys = ys'" by simp
  with assms(1) show ?thesis by simp
qed

lemma bucket_eq_iff:
  "bucket i t = bucket i' t' \<longleftrightarrow> same_budget (i, t) (i', t')"
proof
  assume "bucket i t = bucket i' t'"
  then have "(if i = [] then ''anon'' else i) @ CHR '':'' # nat_to_dec (t div 600000)
           = (if i' = [] then ''anon'' else i') @ CHR '':'' # nat_to_dec (t' div 600000)"
    by (simp add: bucket_def)
  from split_at_last [OF this nat_to_dec_no_colon nat_to_dec_no_colon]
  have "(if i = [] then ''anon'' else i) = (if i' = [] then ''anon'' else i')"
    and "t div 600000 = t' div 600000"
    by (auto dest: nat_to_dec_inj)
  then show "same_budget (i, t) (i', t')"
    by (auto simp: same_budget_def split: if_splits)
next
  assume "same_budget (i, t) (i', t')"
  then show "bucket i t = bucket i' t'"
    by (auto simp: same_budget_def bucket_def)
qed

lemma same_budget_sym: "same_budget c d = same_budget d c"
  by (auto simp: same_budget_def)

lemma counted_same_budget:
  assumes "same_budget c d"
  shows "counted (fst c) (snd c) k w = counted (fst d) (snd d) k w"
proof -
  have b: "bucket (fst c) (snd c) = bucket (fst d) (snd d)"
    using assms bucket_eq_iff [of "fst c" "snd c" "fst d" "snd d"] by simp
  have q: "snd c div 600000 = snd d div 600000"
    using assms by (simp add: same_budget_def)
  show ?thesis unfolding counted_def b q by (rule refl)
qed

text \<open>A call leaves the buckets of the other clients and windows as they are.\<close>

lemma rateLimit_others:
  "b \<noteq> bucket ident t \<Longrightarrow> kv (snd (rateLimit t ident w)) b = kv w b"
  by (simp add: rateLimit_def Let_def split_beta kv_put_def kv_get_def)

lemma rateLimit_tally:
  assumes inv: "\<forall>d\<in>A. counted (fst d) (snd d) (tally hist d) w" and c: "c \<in> A"
  shows "fst (rateLimit (snd c) (fst c) w) = (tally hist c < 60)
       \<and> (\<forall>d\<in>A. counted (fst d) (snd d) (tally (hist @ [c]) d) (snd (rateLimit (snd c) (fst c) w)))
       \<and> log (snd (rateLimit (snd c) (fst c) w)) =
           log w @ [KvGet (bucket (fst c) (snd c)),
                    KvPut (bucket (fst c) (snd c)) (nat_to_dec (tally hist c + 1)) 660]"
proof -
  let ?w = "snd (rateLimit (snd c) (fst c) w)"
  from inv c have "counted (fst c) (snd c) (tally hist c) w" by blast
  note step = rateLimit_counted [OF this refl]
  have "counted (fst d) (snd d) (tally (hist @ [c]) d) ?w" if d: "d \<in> A" for d
  proof (cases "same_budget d c")
    case True
    have "tally (hist @ [c]) d = tally hist c + 1"
    proof -
      have "same_budget d x = same_budget c x" for x
        using True by (auto simp: same_budget_def)
      then have "same_budget d = same_budget c" by (rule ext)
      moreover have "same_budget c c" by (simp add: same_budget_def)
      ultimately show ?thesis by (simp add: tally_def)
    qed
    moreover have "counted (fst c) (snd c) (tally hist c + 1) ?w" using step by simp
    ultimately show ?thesis
      using counted_same_budget [OF True] by simp
  next
    case False
    then have ne: "bucket (fst d) (snd d) \<noteq> bucket (fst c) (snd c)"
      using bucket_eq_iff [of "fst d" "snd d" "fst c" "snd c"] by simp
    have "tally (hist @ [c]) d = tally hist d" using False by (simp add: tally_def)
    moreover have "counted (fst d) (snd d) (tally hist d) w" using inv d by blast
    ultimately show ?thesis
      using rateLimit_others [OF ne, of w] by (simp add: counted_def)
  qed
  then show ?thesis using step by auto
qed

text \<open>A run of calls, after the calls \<open>hist\<close>.\<close>

lemma admits_all_tally:
  assumes "set cs \<subseteq> A" and "\<forall>d\<in>A. counted (fst d) (snd d) (tally hist d) w"
  shows "fst (admits_all cs w) = map (\<lambda>n. tally (hist @ take n cs) (cs ! n) < 60) [0..<length cs]
       \<and> (\<forall>d\<in>A. counted (fst d) (snd d) (tally (hist @ cs) d) (snd (admits_all cs w)))
       \<and> log (snd (admits_all cs w)) =
           log w @ concat (map (\<lambda>n. [KvGet (bucket (fst (cs ! n)) (snd (cs ! n))),
                                     KvPut (bucket (fst (cs ! n)) (snd (cs ! n)))
                                       (nat_to_dec (tally (hist @ take n cs) (cs ! n) + 1)) 660])
                             [0..<length cs])"
  using assms
proof (induction cs arbitrary: hist w)
  case Nil
  then show ?case by simp
next
  case (Cons c cs)
  from Cons.prems(1) have c: "c \<in> A" and rest: "set cs \<subseteq> A" by simp_all
  note step = rateLimit_tally [OF Cons.prems(2) c]
  from step have inv: "\<forall>d\<in>A. counted (fst d) (snd d) (tally (hist @ [c]) d)
                         (snd (rateLimit (snd c) (fst c) w))"
    by blast
  note ih = Cons.IH [OF rest inv]
  have up: "[0..<length (c # cs)] = 0 # map Suc [0..<length cs]"
    by (simp add: upt_conv_Cons map_Suc_upt del: upt_Suc)
  show ?case
    using step ih unfolding up by (simp add: split_beta comp_def)
qed

lemma admits_as_admits_all: "admits ident ts w = admits_all (map (Pair ident) ts) w"
  by (induction ts arbitrary: w) (simp_all add: split_beta)

lemma tally_append: "tally (xs @ ys) c = tally xs c + tally ys c"
  by (simp add: tally_def)

lemma tally_replicate: "tally (replicate k d) c = (if same_budget c d then k else 0)"
  by (simp add: tally_def)

lemma tally_Cons: "tally (d # xs) c = (if same_budget c d then 1 else 0) + tally xs c"
  by (simp add: tally_def)

lemma tally_Nil: "tally [] c = 0"
  by (simp add: tally_def)

text \<open>
  C5.  Each client has, in each 10-minute window, a budget of its own: the key of the
  counter is the same for two calls exactly when they are of the same client and in the
  same window.  When clients call in any order, from a store where none of their buckets
  has been written, a call is admitted exactly when fewer than 60 earlier calls were of
  the same client in the same window; the calls of other clients and of other windows do
  not count.  Every call, admitted or not, reads the counter and writes it back
  incremented (with a TTL of 660 seconds), so that at the end each counter holds the
  number of calls of its client in its window.  For one client in one window: the
  \<open>n\<close>-th call is admitted exactly when \<open>n \<le> 60\<close>, and after \<open>n\<close> calls the stored
  counter is \<open>n\<close>.
\<close>

theorem C5_rate_limit_window:
  "(bucket i t = bucket i' t' \<longleftrightarrow> same_budget (i, t) (i', t'))
   \<and> ((\<forall>c\<in>set calls. kv w (bucket (fst c) (snd c)) = None) \<longrightarrow>
        fst (admits_all calls w) = map (\<lambda>n. earlier calls n < 60) [0..<length calls]
        \<and> (\<forall>c\<in>set calls.
              map_option fst (kv (snd (admits_all calls w)) (bucket (fst c) (snd c)))
                = Some (nat_to_dec (tally calls c)))
        \<and> log (snd (admits_all calls w)) =
            log w @ concat (map (\<lambda>n. [KvGet (bucket (fst (calls ! n)) (snd (calls ! n))),
                                      KvPut (bucket (fst (calls ! n)) (snd (calls ! n)))
                                        (nat_to_dec (earlier calls n + 1)) 660])
                              [0..<length calls]))
   \<and> ((\<forall>t\<in>set ts. t div 600000 = t0 div 600000) \<and> kv w (bucket ident t0) = None \<longrightarrow>
        fst (admits ident ts w) = map (\<lambda>i. i + 1 \<le> 60) [0..<length ts]
        \<and> (ts \<noteq> [] \<longrightarrow>
             map_option fst (kv (snd (admits ident ts w)) (bucket ident t0))
               = Some (nat_to_dec (length ts)))
        \<and> log (snd (admits ident ts w)) =
            log w @ concat (map (\<lambda>i. [KvGet (bucket ident t0),
                                      KvPut (bucket ident t0) (nat_to_dec (i + 1)) 660])
                              [0..<length ts]))"
proof (intro conjI impI)
  show "bucket i t = bucket i' t' \<longleftrightarrow> same_budget (i, t) (i', t')"
    by (rule bucket_eq_iff)
next
  assume fresh: "\<forall>c\<in>set calls. kv w (bucket (fst c) (snd c)) = None"
  then have inv: "\<forall>d\<in>set calls. counted (fst d) (snd d) (tally [] d) w"
    by (simp add: counted_def tally_def)
  note r = admits_all_tally [OF subset_refl inv]
  show "fst (admits_all calls w) = map (\<lambda>n. earlier calls n < 60) [0..<length calls]"
    using r by (simp add: earlier_def)
  show "log (snd (admits_all calls w)) =
          log w @ concat (map (\<lambda>n. [KvGet (bucket (fst (calls ! n)) (snd (calls ! n))),
                                    KvPut (bucket (fst (calls ! n)) (snd (calls ! n)))
                                      (nat_to_dec (earlier calls n + 1)) 660])
                            [0..<length calls])"
    using r by (simp add: earlier_def)
  show "\<forall>c\<in>set calls.
          map_option fst (kv (snd (admits_all calls w)) (bucket (fst c) (snd c)))
            = Some (nat_to_dec (tally calls c))"
  proof
    fix c assume c: "c \<in> set calls"
    then have "same_budget c c" and "filter (same_budget c) calls \<noteq> []"
      by (auto simp: same_budget_def filter_empty_conv)
    then have "tally calls c \<noteq> 0" by (simp add: tally_def)
    moreover from r c have "counted (fst c) (snd c) (tally calls c) (snd (admits_all calls w))"
      by simp
    ultimately show "map_option fst (kv (snd (admits_all calls w)) (bucket (fst c) (snd c)))
                       = Some (nat_to_dec (tally calls c))"
      by (auto simp: counted_def split: option.splits)
  qed
next
  assume a: "(\<forall>t\<in>set ts. t div 600000 = t0 div 600000) \<and> kv w (bucket ident t0) = None"
  then have c: "counted ident t0 0 w" by (simp add: counted_def)
  from a have w: "\<forall>t\<in>set ts. t div 600000 = t0 div 600000" by simp
  note r = admits_counted [OF w c]
  show "fst (admits ident ts w) = map (\<lambda>i. i + 1 \<le> 60) [0..<length ts]"
    using r by simp
  show "log (snd (admits ident ts w)) =
          log w @ concat (map (\<lambda>i. [KvGet (bucket ident t0),
                                    KvPut (bucket ident t0) (nat_to_dec (i + 1)) 660])
                            [0..<length ts])"
    using r by simp
  assume "ts \<noteq> []"
  then show "map_option fst (kv (snd (admits ident ts w)) (bucket ident t0))
               = Some (nat_to_dec (length ts))"
    using r by (auto simp: counted_def split: option.splits if_splits)
qed


theorem C5_rate_limit_window_witness:
  "fst (admits_all (replicate 60 (''a'', 7) @ [(''b'', 8), (''a'', 600007), (''a'', 9),
                                               ([], 1), (''anon'', 2)]) (world0 []))
     = replicate 60 True @ [True, True, False, True, True]
   \<and> fst (admits ''c'' (replicate 61 7) (world0 [])) = replicate 60 True @ [False]"
proof -
  let ?l = "[(''b'', 8::nat), (''a'', 600007), (''a'', 9), ([], 1), (''anon'', 2)]"
  let ?calls = "replicate 60 (''a'', 7::nat) @ ?l"
  note t = C5_rate_limit_window [of undefined undefined undefined undefined ?calls "world0 []"
                                    "replicate 61 7" 7 "''c''"]
  have h0: "\<forall>c\<in>set ?calls. kv (world0 []) (bucket (fst c) (snd c)) = None"
    by (simp add: world0_def)
  have h1: "(\<forall>t\<in>set (replicate 61 (7::nat)). t div 600000 = 7 div 600000)
            \<and> kv (world0 []) (bucket ''c'' 7) = None"
    by (simp add: world0_def)
  have early: "(earlier ?calls n < 60) = True" if "n \<in> set [0..<60]" for n
    using that by (simp add: earlier_def nth_append tally_replicate)
  have len: "[0..<length ?calls] = [0..<60] @ [60, 61, 62, 63, 64]"
    by (simp add: upt_rec)
  have m: "map (\<lambda>n. earlier ?calls n < 60) [0..<60] = replicate 60 True"
  proof -
    have "map (\<lambda>n. earlier ?calls n < 60) [0..<60] = map (\<lambda>n. True) [0..<60]"
      by (rule map_cong [OF refl]) (rule early)
    then show ?thesis by (simp only: map_replicate_const length_upt diff_zero)
  qed
  have m': "map (\<lambda>n. earlier ?calls n < 60) [60, 61, 62, 63, 64] = [True, True, False, True, True]"
    by (simp add: earlier_def nth_append tally_replicate tally_append tally_Cons tally_Nil
          same_budget_def)
  have m1: "map (\<lambda>i. i + 1 \<le> 60) [0..<length (replicate 61 (7::nat))] = replicate 60 True @ [False]"
    by code_simp
  have a: "fst (admits_all ?calls (world0 [])) = replicate 60 True @ [True, True, False, True, True]"
    using t [THEN conjunct2, THEN conjunct1, THEN mp, OF h0, THEN conjunct1]
    unfolding len map_append m m' .
  have b: "fst (admits ''c'' (replicate 61 7) (world0 [])) = replicate 60 True @ [False]"
    using t [THEN conjunct2, THEN conjunct2, THEN mp, OF h1, THEN conjunct1]
    unfolding m1 .
  from a b show ?thesis by (rule conjI)
qed

section \<open>Message translation\<close>

lemma walk_acc_append:
  "fst (walk ms sp (cs @ ds)) = fst (walk ms sp ds)
   \<and> snd (walk ms sp (cs @ ds)) = cs @ snd (walk ms sp ds)"
  by (induction ms arbitrary: sp ds) (simp_all add: Let_def)

lemma walk_acc: "walk ms sp cs = (fst (walk ms sp []), cs @ snd (walk ms sp []))"
  using walk_acc_append [of ms sp cs "[]"] by (simp add: prod_eq_iff)

lemma walk_append:
  "walk (xs @ ys) sp cs = walk ys (fst (walk xs sp cs)) (snd (walk xs sp cs))"
  by (induction xs arbitrary: sp cs) (simp_all add: Let_def)

lemma walk_drop_falsy:
  "\<not> truthy (jget m ''content'') \<Longrightarrow> walk (xs @ m # ys) sp cs = walk (xs @ ys) sp cs"
  by (simp add: walk_append)

lemma walk_roles:
  "\<forall>t\<in>set cs. role t = ''user'' \<or> role t = ''model'' \<Longrightarrow>
   \<forall>t\<in>set (snd (walk ms sp cs)). role t = ''user'' \<or> role t = ''model''"
proof (induction ms arbitrary: sp cs)
  case Nil
  then show ?case by simp
next
  case (Cons m ms)
  have user: "\<forall>t\<in>set (snd (walk ms sp' (cs @ [\<lparr>role = ''user'', parts = ps\<rparr>]))).
                role t = ''user'' \<or> role t = ''model''" for sp' ps
    using Cons.prems by (intro Cons.IH) auto
  have model: "\<forall>t\<in>set (snd (walk ms sp' (cs @ [\<lparr>role = ''model'', parts = ps\<rparr>]))).
                role t = ''user'' \<or> role t = ''model''" for sp' ps
    using Cons.prems by (intro Cons.IH) auto
  have keep: "\<forall>t\<in>set (snd (walk ms sp' cs)). role t = ''user'' \<or> role t = ''model''" for sp'
    using Cons.prems by (rule Cons.IH)
  show ?case
    by (simp add: Let_def user model keep)
qed

lemma contents_translation:
  "contents (openAIToGeminiBody body) =
     (let ms = (case jget body ''messages'' of JArr ms \<Rightarrow> ms | _ \<Rightarrow> []);
          r = walk ms [] []
      in if fst r \<noteq> [] then snd r @ [user_turn (fst r)] else snd r)"
  by (simp add: openAIToGeminiBody_def Let_def split_beta user_turn_def)

lemma translate_walk:
  "translate ms =
     (if fst (walk ms [] []) \<noteq> [] then snd (walk ms [] []) @ [user_turn (fst (walk ms [] []))]
      else snd (walk ms [] []))"
  by (simp add: translate_def contents_translation Let_def)

lemma join_Cons: "join sep (x # xs) = x @ (if xs = [] then [] else sep @ join sep xs)"
  by (cases xs) simp_all

lemma join_nonempty: "x \<noteq> [] \<Longrightarrow> join sep (x # xs) \<noteq> []"
  by (simp add: join_Cons)

text \<open>A prefix \<open>p\<close> followed by the system contents \<open>ss\<close>, as the loop accumulates them.\<close>

lemma walk_no_user:
  assumes "no_user seg"
  shows "walk (map (\<lambda>rc. msg (fst rc) (snd rc)) seg @ rest) sp cs =
           walk rest
             (if sp = [] then join nl (contents_of ''system'' seg)
              else join nl (sp # contents_of ''system'' seg))
             (cs @ map model_turn (contents_of ''assistant'' seg))"
  using assms
proof (induction seg arbitrary: sp cs)
  case Nil
  then show ?case by (simp add: contents_of_def)
next
  case (Cons rc seg)
  from Cons.prems have nu: "no_user seg"
    and r: "fst rc = ''system'' \<or> fst rc = ''assistant''" and c: "snd rc \<noteq> []"
    by (simp_all add: no_user_def)
  from r show ?case
  proof
    assume s: "fst rc = ''system''"
    have "walk (map (\<lambda>rc. msg (fst rc) (snd rc)) (rc # seg) @ rest) sp cs =
          walk (map (\<lambda>rc. msg (fst rc) (snd rc)) seg @ rest)
            (sp @ (if sp \<noteq> [] then nl else []) @ snd rc) cs"
      using s c by (simp add: msg_def)
    also have "\<dots> = walk rest
             (join nl ((sp @ (if sp \<noteq> [] then nl else []) @ snd rc) # contents_of ''system'' seg))
             (cs @ map model_turn (contents_of ''assistant'' seg))"
      using c by (simp add: Cons.IH [OF nu])
    finally show ?thesis
      using s c by (simp add: contents_of_def join_Cons)
  next
    assume a: "fst rc = ''assistant''"
    have "walk (map (\<lambda>rc. msg (fst rc) (snd rc)) (rc # seg) @ rest) sp cs =
          walk (map (\<lambda>rc. msg (fst rc) (snd rc)) seg @ rest) sp (cs @ [model_turn (snd rc)])"
      using a c by (simp add: msg_def Let_def model_turn_def)
    then show ?thesis
      using a by (simp add: Cons.IH [OF nu] contents_of_def)
  qed
qed

lemma system_prefix_nonempty:
  assumes "no_user seg" and "contents_of ''system'' seg \<noteq> []"
  shows "join nl (contents_of ''system'' seg) \<noteq> []"
proof -
  from assms(2) obtain x xs where e: "contents_of ''system'' seg = x # xs"
    by (cases "contents_of ''system'' seg") auto
  then have "x \<in> set (contents_of ''system'' seg)" by simp
  then have "x \<in> snd ` set seg" by (auto simp: contents_of_def)
  with assms(1) have "x \<noteq> []" by (auto simp: no_user_def list_all_iff)
  then show ?thesis unfolding e by (rule join_nonempty)
qed

lemma translate_inject:
  assumes "no_user seg" and "contents_of ''system'' seg \<noteq> []"
      and "ru \<noteq> []" and "ru \<noteq> ''system''" and "ru \<noteq> ''assistant''" and "u \<noteq> []"
  shows "translate (map (\<lambda>rc. msg (fst rc) (snd rc)) seg @ msg ru u # rest) =
           map model_turn (contents_of ''assistant'' seg)
           @ [user_turn (join nl (contents_of ''system'' seg) @ nl @ nl @ u)]
           @ translate rest"
proof -
  let ?p = "join nl (contents_of ''system'' seg)"
  let ?cs = "map model_turn (contents_of ''assistant'' seg) @ [user_turn (?p @ nl @ nl @ u)]"
  have p: "?p \<noteq> []" using assms(1,2) by (rule system_prefix_nonempty)
  have "walk (map (\<lambda>rc. msg (fst rc) (snd rc)) seg @ msg ru u # rest) [] [] =
        walk (msg ru u # rest) ?p (map model_turn (contents_of ''assistant'' seg))"
    by (simp add: walk_no_user [OF assms(1)])
  also have "\<dots> = walk rest [] ?cs"
    using p assms(3-6) by (simp add: msg_def Let_def user_turn_def)
  also have "\<dots> = (fst (walk rest [] []), ?cs @ snd (walk rest [] []))"
    by (rule walk_acc)
  finally show ?thesis
    by (simp add: translate_walk)
qed

lemma translate_trailing:
  assumes "no_user seg" and "contents_of ''system'' seg \<noteq> []"
  shows "translate (map (\<lambda>rc. msg (fst rc) (snd rc)) seg) =
           map model_turn (contents_of ''assistant'' seg)
           @ [user_turn (join nl (contents_of ''system'' seg))]"
proof -
  have p: "join nl (contents_of ''system'' seg) \<noteq> []"
    using assms by (rule system_prefix_nonempty)
  have "walk (map (\<lambda>rc. msg (fst rc) (snd rc)) seg) [] [] =
        (join nl (contents_of ''system'' seg), map model_turn (contents_of ''assistant'' seg))"
    using walk_no_user [OF assms(1), of "[]" "[]" "[]"] by simp
  then show ?thesis using p by (simp add: translate_walk)
qed

lemma translate_roles: "\<forall>t\<in>set (contents (openAIToGeminiBody body)). role t = ''user'' \<or> role t = ''model''"
proof -
  have "\<forall>t\<in>set (snd (walk ms [] [])). role t = ''user'' \<or> role t = ''model''" for ms
    by (rule walk_roles) simp
  then show ?thesis
    by (auto simp: contents_translation Let_def user_turn_def)
qed

lemma system_prefix_empty:
  assumes "no_user seg"
  shows "join nl (contents_of ''system'' seg) = [] \<longleftrightarrow> contents_of ''system'' seg = []"
  using system_prefix_nonempty [OF assms] by auto

text \<open>A run of system and assistant messages, then a message that makes a user turn.\<close>

lemma translate_step:
  assumes "no_user seg"
      and "ru \<noteq> []" and "ru \<noteq> ''system''" and "ru \<noteq> ''assistant''" and "u \<noteq> []"
  shows "translate (map (\<lambda>rc. msg (fst rc) (snd rc)) seg @ msg ru u # rest) =
           map model_turn (contents_of ''assistant'' seg)
           @ [user_turn (if contents_of ''system'' seg = [] then u
                         else join nl (contents_of ''system'' seg) @ nl @ nl @ u)]
           @ translate rest"
proof (cases "contents_of ''system'' seg = []")
  case False
  with assms show ?thesis by (simp add: translate_inject)
next
  case True
  let ?cs = "map model_turn (contents_of ''assistant'' seg) @ [user_turn u]"
  have "walk (map (\<lambda>rc. msg (fst rc) (snd rc)) seg @ msg ru u # rest) [] [] =
        walk (msg ru u # rest) [] (map model_turn (contents_of ''assistant'' seg))"
    by (simp add: walk_no_user [OF assms(1)] True)
  also have "\<dots> = walk rest [] ?cs"
    using assms(2-5) by (simp add: msg_def Let_def user_turn_def)
  also have "\<dots> = (fst (walk rest [] []), ?cs @ snd (walk rest [] []))"
    by (rule walk_acc)
  finally show ?thesis
    using True by (simp add: translate_walk)
qed

lemma translate_run:
  assumes "no_user seg"
  shows "translate (map (\<lambda>rc. msg (fst rc) (snd rc)) seg) =
           map model_turn (contents_of ''assistant'' seg)
           @ (if contents_of ''system'' seg = [] then []
              else [user_turn (join nl (contents_of ''system'' seg))])"
proof -
  have "walk (map (\<lambda>rc. msg (fst rc) (snd rc)) seg) [] [] =
        (join nl (contents_of ''system'' seg), map model_turn (contents_of ''assistant'' seg))"
    using walk_no_user [OF assms, of "[]" "[]" "[]"] by simp
  then show ?thesis
    by (simp add: translate_walk system_prefix_empty [OF assms])
qed

text \<open>Messages without a role or a content leave no trace.\<close>

lemma walk_kept:
  "walk (map (\<lambda>rc. msg (fst rc) (snd rc)) ms) sp cs =
   walk (map (\<lambda>rc. msg (fst rc) (snd rc)) (kept ms)) sp cs"
  by (induction ms arbitrary: sp cs) (simp_all add: kept_def msg_def Let_def)

lemma translate_kept:
  "translate (map (\<lambda>rc. msg (fst rc) (snd rc)) ms) =
   translate (map (\<lambda>rc. msg (fst rc) (snd rc)) (kept ms))"
  by (simp add: translate_walk walk_kept [of ms])

lemma walk_filter_truthy:
  "walk js sp cs =
   walk (filter (\<lambda>m. truthy (jget m ''role'') \<and> truthy (jget m ''content'')) js) sp cs"
  by (induction js arbitrary: sp cs) (simp_all add: Let_def)

lemma translate_filter_truthy:
  "translate js =
   translate (filter (\<lambda>m. truthy (jget m ''role'') \<and> truthy (jget m ''content'')) js)"
  by (simp add: translate_walk walk_filter_truthy [of js])

text \<open>On messages that all have a role and a content, the code does what the specification says.\<close>

lemma translate_spec_turns:
  "\<forall>rc\<in>set ks. fst rc \<noteq> [] \<and> snd rc \<noteq> [] \<Longrightarrow>
   translate (map (\<lambda>rc. msg (fst rc) (snd rc)) ks) = spec_turns ks"
proof (induction "length ks" arbitrary: ks rule: less_induct)
  case less
  let ?seg = "takeWhile before_user ks"
  let ?r = "dropWhile before_user ks"
  have split: "ks = ?seg @ ?r" by simp
  have seg: "no_user ?seg"
    unfolding no_user_def list_all_iff
  proof
    fix rc assume a: "rc \<in> set ?seg"
    then have "before_user rc" by (rule set_takeWhileD [THEN conjunct2])
    moreover from a have "rc \<in> set ks" by (rule set_takeWhileD [THEN conjunct1])
    ultimately show "(fst rc = ''system'' \<or> fst rc = ''assistant'') \<and> snd rc \<noteq> []"
      using less.prems by (simp add: before_user_def)
  qed
  show ?case
  proof (cases ?r)
    case Nil
    have "?seg = ks" using Nil by simp
    then have "ks = ?seg" by (rule sym)
    then have "translate (map (\<lambda>rc. msg (fst rc) (snd rc)) ks)
               = translate (map (\<lambda>rc. msg (fst rc) (snd rc)) ?seg)"
      by simp
    also have "\<dots> = map model_turn (contents_of ''assistant'' ?seg)
           @ (if contents_of ''system'' ?seg = [] then []
              else [user_turn (join nl (contents_of ''system'' ?seg))])"
      by (rule translate_run [OF seg])
    also have "\<dots> = spec_turns ks"
      by (subst spec_turns.simps) (simp add: Nil Let_def)
    finally show ?thesis .
  next
    case (Cons rc rest)
    have ks: "ks = ?seg @ rc # rest" using split Cons by simp
    have "rc = hd ?r" using Cons by simp
    then have nb: "\<not> before_user rc"
      using hd_dropWhile [of before_user ks] Cons by simp
    have sub: "set ?r \<subseteq> set ks" by (auto dest: set_dropWhileD)
    have "rc \<in> set ks" using sub Cons by simp
    then have ne: "fst rc \<noteq> []" "snd rc \<noteq> []" using less.prems by simp_all
    have "set rest \<subseteq> set ks" using sub Cons by simp
    then have rest: "\<forall>rc\<in>set rest. fst rc \<noteq> [] \<and> snd rc \<noteq> []"
      using less.prems by blast
    have len: "length rest < length ks"
      using length_dropWhile_le [of before_user ks] Cons by simp
    have "translate (map (\<lambda>rc. msg (fst rc) (snd rc)) ks)
          = translate (map (\<lambda>rc. msg (fst rc) (snd rc)) ?seg @ msg (fst rc) (snd rc)
                         # map (\<lambda>rc. msg (fst rc) (snd rc)) rest)"
      using arg_cong [OF ks, of "\<lambda>l. translate (map (\<lambda>rc. msg (fst rc) (snd rc)) l)"] by simp
    also have "\<dots> = map model_turn (contents_of ''assistant'' ?seg)
           @ [user_turn (if contents_of ''system'' ?seg = [] then snd rc
                         else join nl (contents_of ''system'' ?seg) @ nl @ nl @ snd rc)]
           @ translate (map (\<lambda>rc. msg (fst rc) (snd rc)) rest)"
      using nb ne by (intro translate_step [OF seg]) (simp_all add: before_user_def)
    also have "\<dots> = map model_turn (contents_of ''assistant'' ?seg)
           @ [user_turn (if contents_of ''system'' ?seg = [] then snd rc
                         else join nl (contents_of ''system'' ?seg) @ nl @ nl @ snd rc)]
           @ spec_turns rest"
      by (simp add: less.hyps [OF len rest])
    also have "\<dots> = spec_turns ks"
      by (subst (2) spec_turns.simps) (simp add: Cons Let_def)
    finally show ?thesis .
  qed
qed

lemma kept_all: "\<forall>rc\<in>set (kept ms). fst rc \<noteq> [] \<and> snd rc \<noteq> []"
  by (simp add: kept_def)

text \<open>
  C4.  No turn sent to provider B has the system role.  For every sequence of messages
  with string roles and contents, the turns are those of the specification: entries
  without a role or a content are dropped; the system contents ahead of a user message are
  joined by newlines in their order and put, followed by a blank line, in front of the
  content of that user message; assistant messages in between become model turns and do
  not take the prefix; what follows the user message is translated as if it stood alone,
  so the prefix is used once.  When no user message follows, the prefix is one user turn
  at the end.  Messages of any shape whose role or content is falsy are dropped.  The
  three sequences of the specification are instances.
\<close>

theorem C4_system_prefix:
  "(\<forall>t\<in>set (contents (openAIToGeminiBody body)). role t \<noteq> ''system'')
   \<and> (no_user seg \<and> contents_of ''system'' seg \<noteq> []
        \<and> ru \<noteq> [] \<and> ru \<noteq> ''system'' \<and> ru \<noteq> ''assistant'' \<and> u \<noteq> [] \<longrightarrow>
      translate (map (\<lambda>rc. msg (fst rc) (snd rc)) seg @ msg ru u # rest) =
        map model_turn (contents_of ''assistant'' seg)
        @ [user_turn (join nl (contents_of ''system'' seg) @ nl @ nl @ u)]
        @ translate rest)
   \<and> (no_user seg \<and> contents_of ''system'' seg \<noteq> [] \<longrightarrow>
      translate (map (\<lambda>rc. msg (fst rc) (snd rc)) seg) =
        map model_turn (contents_of ''assistant'' seg)
        @ [user_turn (join nl (contents_of ''system'' seg))])
   \<and> translate [msg ''system'' ''S'', msg ''user'' ''U''] = [user_turn (''S'' @ nl @ nl @ ''U'')]
   \<and> translate [msg ''system'' ''S''] = [user_turn ''S'']
   \<and> translate [msg ''system'' ''A'', msg ''system'' ''B'', msg ''user'' ''U'']
       = [user_turn (''A'' @ nl @ ''B'' @ nl @ nl @ ''U'')]
   \<and> translate (map (\<lambda>rc. msg (fst rc) (snd rc)) ms) = spec_turns (kept ms)
   \<and> (no_user seg \<and> ru \<noteq> [] \<and> ru \<noteq> ''system'' \<and> ru \<noteq> ''assistant'' \<and> u \<noteq> [] \<longrightarrow>
      translate (map (\<lambda>rc. msg (fst rc) (snd rc)) seg @ msg ru u # rest) =
        map model_turn (contents_of ''assistant'' seg)
        @ [user_turn (if contents_of ''system'' seg = [] then u
                      else join nl (contents_of ''system'' seg) @ nl @ nl @ u)]
        @ translate rest)
   \<and> translate js =
       translate (filter (\<lambda>m. truthy (jget m ''role'') \<and> truthy (jget m ''content'')) js)"
proof -
  have roles: "\<forall>t\<in>set (contents (openAIToGeminiBody body)). role t \<noteq> ''system''"
    using translate_roles [of body] by auto
  have ex1: "translate [msg ''system'' ''S'', msg ''user'' ''U'']
               = [user_turn (''S'' @ nl @ nl @ ''U'')]"
    by (simp add: translate_walk msg_def Let_def user_turn_def)
  have ex2: "translate [msg ''system'' ''S''] = [user_turn ''S'']"
    by (simp add: translate_walk msg_def Let_def user_turn_def)
  have ex3: "translate [msg ''system'' ''A'', msg ''system'' ''B'', msg ''user'' ''U'']
               = [user_turn (''A'' @ nl @ ''B'' @ nl @ nl @ ''U'')]"
    by (simp add: translate_walk msg_def Let_def user_turn_def)
  have spec: "translate (map (\<lambda>rc. msg (fst rc) (snd rc)) ms) = spec_turns (kept ms)"
    using translate_kept [of ms] translate_spec_turns [OF kept_all, of ms] by simp
  show ?thesis
    using roles ex1 ex2 ex3 spec translate_inject [of seg ru u rest] translate_trailing [of seg]
      translate_step [of seg ru u rest] translate_filter_truthy [of js]
    by blast
qed

theorem C4_system_prefix_witness:
  "translate [msg ''system'' ''A'', msg ''assistant'' ''X'', msg ''system'' ''B'',
              msg ''user'' ''U'', msg ''user'' ''V'']
     = [model_turn ''X'', user_turn (''A'' @ nl @ ''B'' @ nl @ nl @ ''U''), user_turn ''V'']
   \<and> translate [msg ''user'' ''U'', msg ''system'' [], msg ''system'' ''S'']
     = [user_turn ''U'', user_turn ''S'']"
proof -
  let ?seg = "[(''system'', ''A''), (''assistant'', ''X''), (''system'', ''B'')]"
  let ?ms = "[(''user'', ''U''), (''system'', []), (''system'', ''S'')]"
  note t = C4_system_prefix [of undefined ?seg "''user''" "''U''" "[msg ''user'' ''V'']" ?ms "[]"]
  have h: "no_user ?seg \<and> contents_of ''system'' ?seg \<noteq> []
           \<and> ''user'' \<noteq> [] \<and> ''user'' \<noteq> ''system'' \<and> ''user'' \<noteq> ''assistant'' \<and> ''U'' \<noteq> []"
    by (simp add: no_user_def contents_of_def)
  have v: "translate [msg ''user'' ''V''] = [user_turn ''V'']"
    by (simp add: translate_walk msg_def Let_def user_turn_def)
  from t h
  have "translate (map (\<lambda>rc. msg (fst rc) (snd rc)) ?seg @ msg ''user'' ''U'' # [msg ''user'' ''V'']) =
        map model_turn (contents_of ''assistant'' ?seg)
        @ [user_turn (join nl (contents_of ''system'' ?seg) @ nl @ nl @ ''U'')]
        @ translate [msg ''user'' ''V'']"
    by blast
  then have a: "translate [msg ''system'' ''A'', msg ''assistant'' ''X'', msg ''system'' ''B'',
              msg ''user'' ''U'', msg ''user'' ''V'']
     = [model_turn ''X'', user_turn (''A'' @ nl @ ''B'' @ nl @ nl @ ''U''), user_turn ''V'']"
    by (simp add: v contents_of_def)
  from t have "translate (map (\<lambda>rc. msg (fst rc) (snd rc)) ?ms) = spec_turns (kept ?ms)"
    by blast
  moreover have "spec_turns (kept ?ms) = [user_turn ''U'', user_turn ''S'']"
    by code_simp
  ultimately have b: "translate [msg ''user'' ''U'', msg ''system'' [], msg ''system'' ''S'']
     = [user_turn ''U'', user_turn ''S'']"
    by simp
  from a b show ?thesis by simp
qed

text \<open>
  C10.  A message whose content is falsy (the empty string, 0, \<^verbatim>\<open>false\<close>,
  \<^verbatim>\<open>null\<close>, or no content at all) is skipped whatever its role: the request built for
  provider B is the one built without that message.
\<close>

theorem C10_falsy_content_dropped:
  "\<not> truthy (jget m ''content'') \<Longrightarrow>
   openAIToGeminiBody (JObj ((''messages'', JArr (xs @ m # ys)) # others))
     = openAIToGeminiBody (JObj ((''messages'', JArr (xs @ ys)) # others))"
  by (simp add: openAIToGeminiBody_def walk_drop_falsy)

theorem C10_falsy_content_dropped_witness:
  "openAIToGeminiBody (JObj [(''messages'',
       JArr [msg ''system'' ''S'', JObj [(''role'', JStr ''system''), (''content'', JNum 0)],
             JObj [(''role'', JStr ''user''), (''content'', JStr [])], msg ''user'' ''U''])])
   = openAIToGeminiBody (JObj [(''messages'',
       JArr [msg ''system'' ''S'', JObj [(''role'', JStr ''system''), (''content'', JNum 0)],
             msg ''user'' ''U''])])"
  using C10_falsy_content_dropped
    [of "JObj [(''role'', JStr ''user''), (''content'', JStr [])]"
        "[msg ''system'' ''S'', JObj [(''role'', JStr ''system''), (''content'', JNum 0)]]"
        "[msg ''user'' ''U'']" "[]"]
  by simp


section \<open>The decommission pattern\<close>

lemma ex_nat_split: "(\<exists>j::nat. P j) \<longleftrightarrow> P 0 \<or> (\<exists>j. P (Suc j))"
  by (metis not0_implies_Suc)

lemma ci_prefix_Nil: "p \<noteq> [] \<Longrightarrow> \<not> ci_prefix p []"
  by (auto simp: ci_prefix_def)

lemma ci_prefix_length: "ci_prefix p s \<Longrightarrow> length p \<le> length s"
proof -
  assume "ci_prefix p s"
  then have "length (map lower_code (take (length p) s)) = length (map lower_code p)"
    unfolding ci_prefix_def by (rule arg_cong)
  then show ?thesis by simp
qed

lemma dot_star_alt_iff:
  "dot_star_alt s \<longleftrightarrow>
     (\<exists>j. (ci_prefix ''decommissioned'' (drop j s) \<or> ci_prefix ''not found'' (drop j s))
          \<and> (\<forall>k<j. \<not> line_terminator (s ! k)))"
proof (induction s)
  case Nil
  then show ?case by (simp add: ci_prefix_Nil)
next
  case (Cons c cs)
  show ?case
    by (subst ex_nat_split) (auto simp: Cons.IH All_less_Suc2)
qed

lemma model_gone_test_iff:
  "model_gone_test s \<longleftrightarrow> (\<exists>i. ci_prefix ''model'' (drop i s) \<and> dot_star_alt (drop 5 (drop i s)))"
proof (induction s)
  case Nil
  then show ?case by (simp add: ci_prefix_Nil)
next
  case (Cons c cs)
  show ?case
    by (subst ex_nat_split) (simp add: Cons.IH)
qed

lemma model_gone_test_pattern:
  "model_gone_test s \<longleftrightarrow>
     (\<exists>i j. ci_prefix ''model'' (drop i s)
           \<and> (ci_prefix ''decommissioned'' (drop (i + 5 + j) s)
                \<or> ci_prefix ''not found'' (drop (i + 5 + j) s))
           \<and> (\<forall>k<j. \<not> line_terminator (s ! (i + 5 + k))))"
proof -
  have key: "dot_star_alt (drop 5 (drop i s)) \<longleftrightarrow>
          (\<exists>j. (ci_prefix ''decommissioned'' (drop (i + 5 + j) s)
                  \<or> ci_prefix ''not found'' (drop (i + 5 + j) s))
               \<and> (\<forall>k<j. \<not> line_terminator (s ! (i + 5 + k))))"
    if "ci_prefix ''model'' (drop i s)" for i
  proof -
    from ci_prefix_length [OF that] have "i + 5 \<le> length s" by simp
    then have nth: "drop 5 (drop i s) ! k = s ! (i + 5 + k)" for k
      by (simp add: add.commute add.left_commute)
    have drp: "drop j (drop 5 (drop i s)) = drop (i + 5 + j) s" for j
      by (simp add: add.commute add.left_commute)
    show ?thesis
      unfolding dot_star_alt_iff nth drp ..
  qed
  show ?thesis
    unfolding model_gone_test_iff using key by blast
qed

section \<open>Upstream calls\<close>

lemma fetch_Cons:
  "script w = r # rs \<Longrightarrow> fetch rq w = (r, w\<lparr>script := rs, log := log w @ [Fetch rq]\<rparr>)"
  by (simp add: fetch_def)

lemma fetch_log: "log (snd (fetch rq w)) = log w @ [Fetch rq]"
  by (simp add: fetch_def split: list.splits)

lemma resolveGroqModel_answered:
  "script w = Answered c # rs \<Longrightarrow>
   resolveGroqModel requested pre w =
     (Inr (groq_pick requested pre (groq_ids c)), w\<lparr>script := rs, log := log w @ [Fetch GroqModels]\<rparr>)"
  by (simp add: resolveGroqModel_def listGroqModels_def fetch_Cons)

lemma resolveGroqModel_rejected:
  "script w = Rejected # rs \<Longrightarrow>
   resolveGroqModel requested pre w =
     (Inl NetworkError, w\<lparr>script := rs, log := log w @ [Fetch GroqModels]\<rparr>)"
  by (simp add: resolveGroqModel_def listGroqModels_def fetch_Cons)

lemma resolveGeminiModel_answered:
  "script w = Answered c # rs \<Longrightarrow>
   resolveGeminiModel requested pre w =
     (Inr (gemini_pick requested pre (gemini_ids c)), w\<lparr>script := rs, log := log w @ [Fetch GeminiModels]\<rparr>)"
  by (simp add: resolveGeminiModel_def listGeminiModels_def fetch_Cons)

lemma resolveGeminiModel_rejected:
  "script w = Rejected # rs \<Longrightarrow>
   resolveGeminiModel requested pre w =
     (Inl NetworkError, w\<lparr>script := rs, log := log w @ [Fetch GeminiModels]\<rparr>)"
  by (simp add: resolveGeminiModel_def listGeminiModels_def fetch_Cons)

lemma groq_req_model: "(groq_req body m)\<lparr>model := m2\<rparr> = groq_req body m2"
  by (simp add: groq_req_def)

text \<open>The first attempt is refused with a status that is not a decommission.\<close>

lemma callGroq_terminal:
  assumes "configured (GROQ_API_KEY e)"
      and "script w = Answered c1 # Answered r1 # rest"
      and "\<not> ok r1" and "\<not> isDecommissionedHttp (status r1) (text_of r1)"
  shows "callGroq e body pre w =
           (Inl (HttpError Groq (status r1) (text_of r1)),
            w\<lparr>script := rest,
              log := log w @ [Fetch GroqModels,
                Fetch (GroqChat (groq_req body (groq_pick (jget body ''model'') pre (groq_ids c1))))]\<rparr>)"
  using assms
  by (simp add: callGroq_def resolveGroqModel_answered fetch_Cons Let_def)

lemma callGroq_retry:
  assumes "configured (GROQ_API_KEY e)"
      and "script w = Answered c1 # Answered r1 # Answered c2 # f # rest"
      and "\<not> ok r1" and "isDecommissionedHttp (status r1) (text_of r1)"
  shows "callGroq e body pre w =
           ((case f of
               Rejected \<Rightarrow> Inl NetworkError
             | Answered r2 \<Rightarrow> if ok r2 then groq_answer r2
                              else Inl (HttpError Groq (status r2) (text_of r2))),
            w\<lparr>script := rest,
              log := log w @ [Fetch GroqModels,
                Fetch (GroqChat (groq_req body (groq_pick (jget body ''model'') pre (groq_ids c1)))),
                Fetch GroqModels,
                Fetch (GroqChat (groq_req body (groq_pick JUndefined pre (groq_ids c2))))]\<rparr>)"
  using assms
  by (cases f) (simp_all add: callGroq_def resolveGroqModel_answered fetch_Cons groq_req_model Let_def)

lemma callGemini_terminal:
  assumes "configured (GEMINI_API_KEY e)"
      and "script w = Answered c1 # Answered r1 # rest"
      and "\<not> ok r1" and "\<not> isDecommissionedHttp (status r1) (text_of r1)"
  shows "callGemini e body pre w =
           (Inl (HttpError Gemini (status r1) (text_of r1)),
            w\<lparr>script := rest,
              log := log w @ [Fetch GeminiModels,
                Fetch (GeminiChat (gemini_pick (jget body ''model'') pre (gemini_ids c1))
                         (openAIToGeminiBody body))]\<rparr>)"
  using assms
  by (simp add: callGemini_def resolveGeminiModel_answered fetch_Cons Let_def)

lemma callGemini_retry:
  assumes "configured (GEMINI_API_KEY e)"
      and "script w = Answered c1 # Answered r1 # Answered c2 # f # rest"
      and "\<not> ok r1" and "isDecommissionedHttp (status r1) (text_of r1)"
  shows "callGemini e body pre w =
           ((case f of
               Rejected \<Rightarrow> Inl NetworkError
             | Answered r2 \<Rightarrow> if ok r2 then gemini_answer r2
                              else Inl (HttpError Gemini (status r2) (text_of r2))),
            w\<lparr>script := rest,
              log := log w @ [Fetch GeminiModels,
                Fetch (GeminiChat (gemini_pick (jget body ''model'') pre (gemini_ids c1))
                         (openAIToGeminiBody body)),
                Fetch GeminiModels,
                Fetch (GeminiChat (gemini_pick JUndefined pre (gemini_ids c2))
                         (openAIToGeminiBody body))]\<rparr>)"
  using assms
  by (cases f) (simp_all add: callGemini_def resolveGeminiModel_answered fetch_Cons Let_def)


section \<open>Model selection\<close>

lemma pickFirstAvailable_first:
  "set xs \<inter> set available = {} \<Longrightarrow> p \<in> set available \<Longrightarrow>
   pickFirstAvailable (xs @ p # ys) available = Some p"
  by (induction xs) auto

lemma pickFirstAvailable_none:
  "set prio \<inter> set available = {} \<Longrightarrow> pickFirstAvailable prio available = None"
  by (induction prio) auto

lemma selectModel_requested:
  "s \<noteq> [] \<Longrightarrow> s \<in> set available \<Longrightarrow> selectModel (JStr s) prio dflt available = s"
  by (simp add: selectModel_def)

lemma selectModel_other:
  "\<not> (\<exists>s. requested = JStr s \<and> s \<noteq> [] \<and> s \<in> set available) \<Longrightarrow>
   selectModel requested prio dflt available =
     (case pickFirstAvailable prio available of
        Some p \<Rightarrow> p
      | None \<Rightarrow> (case available of [] \<Rightarrow> dflt | a # _ \<Rightarrow> if a \<noteq> [] then a else dflt))"
  by (cases requested) (auto simp: selectModel_def)

lemma ids_unusable:
  "\<not> ok c \<or> body_json c = None \<Longrightarrow> groq_ids c = [] \<and> gemini_ids c = []"
  by (auto simp: groq_ids_def gemini_ids_def)

text \<open>
  C3, as the code has it.  Whenever the catalog request is answered, with any status and
  any body, resolution returns a model id, picked from the ids the answer lists (none
  when the status is not a success or the body is unusable): the requested model when it
  is a non-empty string of the catalog, whatever the preset; otherwise the first entry of
  the priority list of the provider and preset that is in the catalog; otherwise the first
  catalog entry when that is not the empty string; otherwise the default of the provider.
\<close>

theorem C3_model_resolution:
  "(script w = Answered c # rs \<longrightarrow>
      resolveGroqModel requested pre w =
        (Inr (selectModel requested
                (if pre = Quality then GROQ_QUALITY_PRIORITY else GROQ_SPEED_PRIORITY)
                ''llama-3.1-8b-instant'' (groq_ids c)),
         w\<lparr>script := rs, log := log w @ [Fetch GroqModels]\<rparr>)
    \<and> resolveGeminiModel requested pre w =
        (Inr (selectModel requested
                (if pre = Quality then GEMINI_QUALITY_PRIORITY else GEMINI_SPEED_PRIORITY)
                ''gemini-2.5-flash'' (gemini_ids c)),
         w\<lparr>script := rs, log := log w @ [Fetch GeminiModels]\<rparr>))
   \<and> (\<not> ok c \<or> body_json c = None \<longrightarrow> groq_ids c = [] \<and> gemini_ids c = [])
   \<and> (s \<noteq> [] \<and> s \<in> set available \<longrightarrow> selectModel (JStr s) prio dflt available = s)
   \<and> (\<not> (\<exists>s. requested = JStr s \<and> s \<noteq> [] \<and> s \<in> set available) \<longrightarrow>
        (prio = xs @ p # ys \<and> set xs \<inter> set available = {} \<and> p \<in> set available \<longrightarrow>
           selectModel requested prio dflt available = p)
      \<and> (set prio \<inter> set available = {} \<and> available = a # as \<and> a \<noteq> [] \<longrightarrow>
           selectModel requested prio dflt available = a)
      \<and> (set prio \<inter> set available = {} \<and> (available = [] \<or> (\<exists>as. available = [] # as)) \<longrightarrow>
           selectModel requested prio dflt available = dflt))"
proof -
  have res: "script w = Answered c # rs \<longrightarrow>
      resolveGroqModel requested pre w =
        (Inr (selectModel requested
                (if pre = Quality then GROQ_QUALITY_PRIORITY else GROQ_SPEED_PRIORITY)
                ''llama-3.1-8b-instant'' (groq_ids c)),
         w\<lparr>script := rs, log := log w @ [Fetch GroqModels]\<rparr>)
    \<and> resolveGeminiModel requested pre w =
        (Inr (selectModel requested
                (if pre = Quality then GEMINI_QUALITY_PRIORITY else GEMINI_SPEED_PRIORITY)
                ''gemini-2.5-flash'' (gemini_ids c)),
         w\<lparr>script := rs, log := log w @ [Fetch GeminiModels]\<rparr>)"
    using resolveGroqModel_answered [of w c rs requested pre]
      resolveGeminiModel_answered [of w c rs requested pre]
    by (simp add: groq_pick_def gemini_pick_def)
  have other: "selectModel requested prio dflt available = p"
    if "\<not> (\<exists>s. requested = JStr s \<and> s \<noteq> [] \<and> s \<in> set available)"
      and "prio = xs @ p # ys" and "set xs \<inter> set available = {}" and "p \<in> set available"
    using that by (simp add: selectModel_other pickFirstAvailable_first)
  have first: "selectModel requested prio dflt available = a"
    if "\<not> (\<exists>s. requested = JStr s \<and> s \<noteq> [] \<and> s \<in> set available)"
      and "set prio \<inter> set available = {}" and "available = a # as" and "a \<noteq> []"
    using that by (simp add: selectModel_other pickFirstAvailable_none)
  have dflt: "selectModel requested prio dflt available = dflt"
    if "\<not> (\<exists>s. requested = JStr s \<and> s \<noteq> [] \<and> s \<in> set available)"
      and "set prio \<inter> set available = {}" and "available = [] \<or> (\<exists>as. available = [] # as)"
    using that by (cases available) (auto simp: selectModel_other pickFirstAvailable_none)
  show ?thesis
    using res ids_unusable [of c] selectModel_requested [of s available prio dflt] other first dflt
    by blast
qed


theorem C3_model_resolution_witness:
  "fst (resolveGroqModel (JStr ''zeta'') Quality
          (world0 [answer 200 (JObj [(''data'', JArr [JObj [(''id'', JStr ''zeta'')]])])]))
     = Inr ''zeta''
   \<and> fst (resolveGeminiModel JUndefined Speed (world0 [answer 503 JNull]))
     = Inr ''gemini-2.5-flash''"
proof -
  let ?c = "\<lparr>status = 200, body_text = Some [],
             body_json = Some (JObj [(''data'', JArr [JObj [(''id'', JStr ''zeta'')]])])\<rparr>"
  let ?d = "\<lparr>status = 503, body_text = Some [], body_json = Some JNull\<rparr>"
  have ids: "groq_ids ?c = [''zeta'']"
    by (simp add: groq_ids_def ok_def)
  have bad: "\<not> ok ?d" by (simp add: ok_def)
  have a: "fst (resolveGroqModel (JStr ''zeta'') Quality (world0 [Answered ?c])) = Inr ''zeta''"
    using C3_model_resolution
      [of "world0 [Answered ?c]" ?c "[]" "JStr ''zeta''" Quality "''zeta''" "groq_ids ?c"
          GROQ_QUALITY_PRIORITY "''llama-3.1-8b-instant''"]
    by (simp add: world0_def ids)
  note t = C3_model_resolution
      [of "world0 [Answered ?d]" ?d "[]" JUndefined Speed _ "gemini_ids ?d"
          GEMINI_SPEED_PRIORITY "''gemini-2.5-flash''"]
  from t bad have none: "gemini_ids ?d = []" by blast
  from t have res: "resolveGeminiModel JUndefined Speed (world0 [Answered ?d]) =
        (Inr (selectModel JUndefined GEMINI_SPEED_PRIORITY ''gemini-2.5-flash'' (gemini_ids ?d)),
         (world0 [Answered ?d])\<lparr>script := [], log := log (world0 [Answered ?d]) @ [Fetch GeminiModels]\<rparr>)"
    by (simp add: world0_def)
  from t have sel: "selectModel JUndefined GEMINI_SPEED_PRIORITY ''gemini-2.5-flash'' (gemini_ids ?d)
                     = ''gemini-2.5-flash''"
    unfolding none by simp
  have b: "fst (resolveGeminiModel JUndefined Speed (world0 [Answered ?d])) = Inr ''gemini-2.5-flash''"
    unfolding res sel by simp
  show ?thesis using a b by (simp add: answer_def)
qed

theorem C3_model_resolution_counterexample:
  "fst (resolveGroqModel JUndefined Speed (world0 [Rejected])) = Inl NetworkError
   \<and> fst (resolveGroqModel JUndefined Speed
            (world0 [answer 200 (JObj [(''data'',
               JArr [JObj [(''id'', JStr [])], JObj [(''id'', JStr ''zeta'')]])])]))
       = Inr ''llama-3.1-8b-instant''"
  by (simp add: resolveGroqModel_def listGroqModels_def fetch_def world0_def answer_def
      groq_ids_def ok_def groq_pick_def selectModel_def GROQ_SPEED_PRIORITY_def)


section \<open>Retry after a decommission\<close>

text \<open>
  C2, as the code has it.  When the first attempt of a provider call is answered with a
  status that is not a success, the attempt counts as decommissioned exactly when the
  status is 404, or it is 400 and the text has, in either case of the letters, the word
  model and later on the same line decommissioned or not found.  Any other status ends
  the call with that status, after one attempt.  On a decommission the catalog is fetched
  again and the model picked with no requested model; when that catalog request is
  answered the call is made once more, with that model, and whatever the second attempt
  gives is the result of the call.
\<close>

theorem C2_decommission_retry:
  assumes "configured (GROQ_API_KEY e)" and "configured (GEMINI_API_KEY e)"
      and "script w = Answered c1 # Answered r1 # rest" and "\<not> ok r1"
  shows "(isDecommissionedHttp (status r1) (text_of r1) \<longleftrightarrow>
            status r1 = 404
            \<or> (status r1 = 400
                \<and> (\<exists>i j. ci_prefix ''model'' (drop i (text_of r1))
                      \<and> (ci_prefix ''decommissioned'' (drop (i + 5 + j) (text_of r1))
                           \<or> ci_prefix ''not found'' (drop (i + 5 + j) (text_of r1)))
                      \<and> (\<forall>k<j. \<not> line_terminator (text_of r1 ! (i + 5 + k))))))
       \<and> (\<not> isDecommissionedHttp (status r1) (text_of r1) \<longrightarrow>
            callGroq e body pre w =
              (Inl (HttpError Groq (status r1) (text_of r1)),
               w\<lparr>script := rest,
                 log := log w @ [Fetch GroqModels,
                   Fetch (GroqChat (groq_req body (groq_pick (jget body ''model'') pre (groq_ids c1))))]\<rparr>)
          \<and> callGemini e body pre w =
              (Inl (HttpError Gemini (status r1) (text_of r1)),
               w\<lparr>script := rest,
                 log := log w @ [Fetch GeminiModels,
                   Fetch (GeminiChat (gemini_pick (jget body ''model'') pre (gemini_ids c1))
                            (openAIToGeminiBody body))]\<rparr>))
       \<and> (isDecommissionedHttp (status r1) (text_of r1) \<and> rest = Answered c2 # f # rest' \<longrightarrow>
            callGroq e body pre w =
              ((case f of
                  Rejected \<Rightarrow> Inl NetworkError
                | Answered r2 \<Rightarrow> if ok r2 then groq_answer r2
                                 else Inl (HttpError Groq (status r2) (text_of r2))),
               w\<lparr>script := rest',
                 log := log w @ [Fetch GroqModels,
                   Fetch (GroqChat (groq_req body (groq_pick (jget body ''model'') pre (groq_ids c1)))),
                   Fetch GroqModels,
                   Fetch (GroqChat (groq_req body (groq_pick JUndefined pre (groq_ids c2))))]\<rparr>)
          \<and> callGemini e body pre w =
              ((case f of
                  Rejected \<Rightarrow> Inl NetworkError
                | Answered r2 \<Rightarrow> if ok r2 then gemini_answer r2
                                 else Inl (HttpError Gemini (status r2) (text_of r2))),
               w\<lparr>script := rest',
                 log := log w @ [Fetch GeminiModels,
                   Fetch (GeminiChat (gemini_pick (jget body ''model'') pre (gemini_ids c1))
                            (openAIToGeminiBody body)),
                   Fetch GeminiModels,
                   Fetch (GeminiChat (gemini_pick JUndefined pre (gemini_ids c2))
                            (openAIToGeminiBody body))]\<rparr>))"
proof (intro conjI impI)
  show "isDecommissionedHttp (status r1) (text_of r1) \<longleftrightarrow>
            status r1 = 404
            \<or> (status r1 = 400
                \<and> (\<exists>i j. ci_prefix ''model'' (drop i (text_of r1))
                      \<and> (ci_prefix ''decommissioned'' (drop (i + 5 + j) (text_of r1))
                           \<or> ci_prefix ''not found'' (drop (i + 5 + j) (text_of r1)))
                      \<and> (\<forall>k<j. \<not> line_terminator (text_of r1 ! (i + 5 + k)))))"
    unfolding model_gone_test_pattern [symmetric] by (simp add: isDecommissionedHttp_def)
next
  assume "\<not> isDecommissionedHttp (status r1) (text_of r1)"
  then show "callGroq e body pre w =
              (Inl (HttpError Groq (status r1) (text_of r1)),
               w\<lparr>script := rest,
                 log := log w @ [Fetch GroqModels,
                   Fetch (GroqChat (groq_req body (groq_pick (jget body ''model'') pre (groq_ids c1))))]\<rparr>)"
    using assms by (intro callGroq_terminal)
next
  assume "\<not> isDecommissionedHttp (status r1) (text_of r1)"
  then show "callGemini e body pre w =
              (Inl (HttpError Gemini (status r1) (text_of r1)),
               w\<lparr>script := rest,
                 log := log w @ [Fetch GeminiModels,
                   Fetch (GeminiChat (gemini_pick (jget body ''model'') pre (gemini_ids c1))
                            (openAIToGeminiBody body))]\<rparr>)"
    using assms by (intro callGemini_terminal)
next
  assume a: "isDecommissionedHttp (status r1) (text_of r1) \<and> rest = Answered c2 # f # rest'"
  with assms(3) have sc: "script w = Answered c1 # Answered r1 # Answered c2 # f # rest'" by simp
  from a have d: "isDecommissionedHttp (status r1) (text_of r1)" by (rule conjunct1)
  show "callGroq e body pre w =
              ((case f of
                  Rejected \<Rightarrow> Inl NetworkError
                | Answered r2 \<Rightarrow> if ok r2 then groq_answer r2
                                 else Inl (HttpError Groq (status r2) (text_of r2))),
               w\<lparr>script := rest',
                 log := log w @ [Fetch GroqModels,
                   Fetch (GroqChat (groq_req body (groq_pick (jget body ''model'') pre (groq_ids c1)))),
                   Fetch GroqModels,
                   Fetch (GroqChat (groq_req body (groq_pick JUndefined pre (groq_ids c2))))]\<rparr>)"
    using assms(1) sc assms(4) d by (rule callGroq_retry)
next
  assume a: "isDecommissionedHttp (status r1) (text_of r1) \<and> rest = Answered c2 # f # rest'"
  with assms(3) have sc: "script w = Answered c1 # Answered r1 # Answered c2 # f # rest'" by simp
  from a have d: "isDecommissionedHttp (status r1) (text_of r1)" by (rule conjunct1)
  show "callGemini e body pre w =
              ((case f of
                  Rejected \<Rightarrow> Inl NetworkError
                | Answered r2 \<Rightarrow> if ok r2 then gemini_answer r2
                                 else Inl (HttpError Gemini (status r2) (text_of r2))),
               w\<lparr>script := rest',
                 log := log w @ [Fetch GeminiModels,
                   Fetch (GeminiChat (gemini_pick (jget body ''model'') pre (gemini_ids c1))
                            (openAIToGeminiBody body)),
                   Fetch GeminiModels,
                   Fetch (GeminiChat (gemini_pick JUndefined pre (gemini_ids c2))
                            (openAIToGeminiBody body))]\<rparr>)"
    using assms(2) sc assms(4) d by (rule callGemini_retry)
qed


lemma decommissioned_text: "isDecommissionedHttp 400 ''Model not found''"
proof -
  have "ci_prefix ''model'' (drop 0 ''Model not found'')
        \<and> (ci_prefix ''decommissioned'' (drop (0 + 5 + 1) ''Model not found'')
             \<or> ci_prefix ''not found'' (drop (0 + 5 + 1) ''Model not found''))
        \<and> (\<forall>k<1. \<not> line_terminator (''Model not found'' ! (0 + 5 + k)))"
    by (simp add: ci_prefix_def lower_code_def line_terminator_def)
  then have "model_gone_test ''Model not found''"
    unfolding model_gone_test_pattern by blast
  then show ?thesis by (simp add: isDecommissionedHttp_def)
qed

theorem C2_decommission_retry_witness:
  "fst (callGroq both_keys (JObj [(''model'', JStr ''a'')]) Speed
         (world0 [groq_catalog [''a''], refusal 400 ''Model not found'',
                  groq_catalog [''b''], groq_reply ''hi'']))
     = Inr (toOpenAIResponse ''hi'')
   \<and> chat_models (log (snd (callGroq both_keys (JObj [(''model'', JStr ''a'')]) Speed
         (world0 [groq_catalog [''a''], refusal 400 ''Model not found'',
                  groq_catalog [''b''], groq_reply ''hi'']))))
     = [''a'', ''b'']"
proof -
  let ?c1 = "\<lparr>status = 200, body_text = Some [],
              body_json = Some (JObj [(''data'', JArr [JObj [(''id'', JStr ''a'')]])])\<rparr>"
  let ?r1 = "\<lparr>status = 400, body_text = Some ''Model not found'',
              body_json = None\<rparr>"
  let ?c2 = "\<lparr>status = 200, body_text = Some [],
              body_json = Some (JObj [(''data'', JArr [JObj [(''id'', JStr ''b'')]])])\<rparr>"
  let ?r2 = "\<lparr>status = 200, body_text = Some [], body_json = Some (toOpenAIResponse ''hi'')\<rparr>"
  let ?w = "world0 [Answered ?c1, Answered ?r1, Answered ?c2, Answered ?r2]"
  let ?body = "JObj [(''model'', JStr ''a'')]"
  have k1: "configured (GROQ_API_KEY both_keys)" and k2: "configured (GEMINI_API_KEY both_keys)"
    by (simp_all add: both_keys_def configured_def)
  have sc: "script ?w = Answered ?c1 # Answered ?r1 # [Answered ?c2, Answered ?r2]"
    by (simp add: world0_def)
  have bad: "\<not> ok ?r1" by (simp add: ok_def)
  have d: "isDecommissionedHttp (status ?r1) (text_of ?r1)"
    using decommissioned_text by (simp add: text_of_def)
  note t = C2_decommission_retry [OF k1 k2 sc bad, of ?body Speed ?c2 "Answered ?r2" "[]"]
  from t d have run: "callGroq both_keys ?body Speed ?w =
         ((case Answered ?r2 of
             Rejected \<Rightarrow> Inl NetworkError
           | Answered r2 \<Rightarrow> if ok r2 then groq_answer r2
                            else Inl (HttpError Groq (status r2) (text_of r2))),
          ?w\<lparr>script := [],
            log := log ?w @ [Fetch GroqModels,
              Fetch (GroqChat (groq_req ?body (groq_pick (jget ?body ''model'') Speed (groq_ids ?c1)))),
              Fetch GroqModels,
              Fetch (GroqChat (groq_req ?body (groq_pick JUndefined Speed (groq_ids ?c2))))]\<rparr>)"
    by blast
  have p1: "groq_pick (jget ?body ''model'') Speed (groq_ids ?c1) = ''a''"
    by (simp add: groq_ids_def ok_def groq_pick_def selectModel_def)
  have p2: "groq_pick JUndefined Speed (groq_ids ?c2) = ''b''"
    by (simp add: groq_ids_def ok_def groq_pick_def selectModel_def GROQ_SPEED_PRIORITY_def)
  have ans: "groq_answer ?r2 = Inr (toOpenAIResponse ''hi'')"
    by (simp add: groq_answer_def toOpenAIResponse_def)
  have "fst (callGroq both_keys ?body Speed ?w) = Inr (toOpenAIResponse ''hi'')
        \<and> chat_models (log (snd (callGroq both_keys ?body Speed ?w))) = [''a'', ''b'']"
    unfolding run p1 p2 by (simp add: ans ok_def world0_def groq_req_def)
  then show ?thesis
    by (simp add: groq_catalog_def answer_def refusal_def groq_reply_def)
qed


theorem C2_decommission_retry_counterexample:
  "\<not> ok \<lparr>status = 404, body_text = Some [], body_json = None\<rparr>
   \<and> isDecommissionedHttp 404 []
   \<and> fst (callGroq both_keys JNull Speed (world0 [groq_catalog [], refusal 404 [], Rejected]))
       = Inl NetworkError
   \<and> chat_models (log (snd (callGroq both_keys JNull Speed
         (world0 [groq_catalog [], refusal 404 [], Rejected]))))
       = [''llama-3.1-8b-instant'']"
  by (simp add: callGroq_def resolveGroqModel_def listGroqModels_def fetch_def world0_def
      groq_catalog_def answer_def refusal_def groq_ids_def ok_def groq_pick_def selectModel_def
      GROQ_SPEED_PRIORITY_def isDecommissionedHttp_def text_of_def groq_req_def both_keys_def
      configured_def Let_def)


section \<open>The chat endpoint\<close>

lemma rateLimit_script: "script (snd (rateLimit now ident w)) = script w"
  by (simp add: rateLimit_def Let_def split_beta kv_get_def kv_put_def)

lemma rateLimit_first:
  assumes "kv w (bucket ident now) = None"
  shows "fst (rateLimit now ident w)"
    and "log (snd (rateLimit now ident w)) =
           log w @ [KvGet (bucket ident now), KvPut (bucket ident now) (nat_to_dec 1) 660]"
proof -
  have c: "counted ident now 0 w" using assms by (simp add: counted_def)
  from rateLimit_counted [OF c refl] show "fst (rateLimit now ident w)" by simp
  from rateLimit_counted [OF c refl]
  show "log (snd (rateLimit now ident w)) =
           log w @ [KvGet (bucket ident now), KvPut (bucket ident now) (nat_to_dec 1) 660]"
    by simp
qed

lemma callGroq_ok:
  assumes "configured (GROQ_API_KEY e)"
      and "script w = Answered c1 # Answered r1 # rest" and "ok r1"
  shows "callGroq e body pre w =
           (groq_answer r1,
            w\<lparr>script := rest,
              log := log w @ [Fetch GroqModels,
                Fetch (GroqChat (groq_req body (groq_pick (jget body ''model'') pre (groq_ids c1))))]\<rparr>)"
  using assms
  by (simp add: callGroq_def resolveGroqModel_answered fetch_Cons Let_def)

lemma callGemini_ok:
  assumes "configured (GEMINI_API_KEY e)"
      and "script w = Answered c1 # Answered r1 # rest" and "ok r1"
  shows "callGemini e body pre w =
           (gemini_answer r1,
            w\<lparr>script := rest,
              log := log w @ [Fetch GeminiModels,
                Fetch (GeminiChat (gemini_pick (jget body ''model'') pre (gemini_ids c1))
                         (openAIToGeminiBody body))]\<rparr>)"
  using assms
  by (simp add: callGemini_def resolveGeminiModel_answered fetch_Cons Let_def)

lemma not_found_decommissioned: "isDecommissionedHttp 404 t"
  by (simp add: isDecommissionedHttp_def)

text \<open>Provider A is named, its first attempt is answered 404, and the second succeeds.\<close>

lemma chat_groq_404:
  assumes "rateLimit now (client_id header) w = (True, w1)"
      and "jget body ''provider'' = JStr ''groq''"
      and "configured (GROQ_API_KEY e)"
      and "script w1 = Answered c1 # Answered r1 # Answered c2 # Answered r2 # rest"
      and "status r1 = 404" and "ok r2" and "groq_answer r2 = Inr out"
  shows "chat e now header (Some body) w =
           (Reply 200 out,
            w1\<lparr>script := rest,
               log := log w1 @ [ReadBody, Fetch GroqModels,
                 Fetch (GroqChat (groq_req body
                   (groq_pick (jget body ''model'') (presetOf body) (groq_ids c1)))),
                 Fetch GroqModels,
                 Fetch (GroqChat (groq_req body
                   (groq_pick JUndefined (presetOf body) (groq_ids c2))))]\<rparr>)"
proof -
  let ?w2 = "w1\<lparr>log := log w1 @ [ReadBody]\<rparr>"
  have sc: "script ?w2 = Answered c1 # Answered r1 # Answered c2 # Answered r2 # rest"
    using assms(4) by simp
  have bad: "\<not> ok r1" using assms(5) by (simp add: ok_def)
  have d: "isDecommissionedHttp (status r1) (text_of r1)"
    using assms(5) by (simp add: not_found_decommissioned)
  note call = callGroq_retry [OF assms(3) sc bad d, of body "presetOf body"]
  have prov: "orElse (jget body ''provider'') (JStr ''auto'') = JStr ''groq''"
    using assms(2) by (simp add: orElse_def nullish_def)
  show ?thesis
    by (simp add: chat_def assms(1) Let_def prov call assms(6,7))
qed


lemma chat_models_append: "chat_models (xs @ ys) = chat_models xs @ chat_models ys"
  by (induction xs rule: chat_models.induct) simp_all

lemma rateLimit_fresh:
  "rateLimit now ident (world0 sc) = (True, snd (rateLimit now ident (world0 sc)))"
  "script (snd (rateLimit now ident (world0 sc))) = sc"
  "chat_models (log (snd (rateLimit now ident (world0 sc)))) = []"
proof -
  have n: "kv (world0 sc) (bucket ident now) = None" by (simp add: world0_def)
  show "rateLimit now ident (world0 sc) = (True, snd (rateLimit now ident (world0 sc)))"
    using rateLimit_first(1) [OF n] by (simp add: prod_eq_iff)
  show "script (snd (rateLimit now ident (world0 sc))) = sc"
    by (simp add: rateLimit_script world0_def)
  show "chat_models (log (snd (rateLimit now ident (world0 sc)))) = []"
    unfolding rateLimit_first(2) [OF n] by (simp add: world0_def)
qed

text \<open>Provider A is named and its first attempt is answered 404: whatever the retry gives.\<close>

lemma chat_groq_404_retry:
  assumes "rateLimit now (client_id header) w = (True, w1)"
      and "jget body ''provider'' = JStr ''groq''"
      and "configured (GROQ_API_KEY e)"
      and "script w1 = Answered c1 # Answered r1 # Answered c2 # f # rest"
      and "status r1 = 404"
  shows "chat e now header (Some body) w =
           ((case f of
               Rejected \<Rightarrow> Failure 502 GroqFailed (Some NetworkError)
             | Answered r2 \<Rightarrow>
                 if ok r2 then (case groq_answer r2 of
                                  Inr out \<Rightarrow> Reply 200 out
                                | Inl x \<Rightarrow> Failure 502 GroqFailed (Some x))
                 else Failure 502 GroqFailed (Some (HttpError Groq (status r2) (text_of r2)))),
            w1\<lparr>script := rest,
               log := log w1 @ [ReadBody, Fetch GroqModels,
                 Fetch (GroqChat (groq_req body
                   (groq_pick (jget body ''model'') (presetOf body) (groq_ids c1)))),
                 Fetch GroqModels,
                 Fetch (GroqChat (groq_req body
                   (groq_pick JUndefined (presetOf body) (groq_ids c2))))]\<rparr>)"
proof -
  let ?w2 = "w1\<lparr>log := log w1 @ [ReadBody]\<rparr>"
  have sc: "script ?w2 = Answered c1 # Answered r1 # Answered c2 # f # rest"
    using assms(4) by simp
  have bad: "\<not> ok r1" using assms(5) by (simp add: ok_def)
  have d: "isDecommissionedHttp (status r1) (text_of r1)"
    using assms(5) by (simp add: not_found_decommissioned)
  note call = callGroq_retry [OF assms(3) sc bad d, of body "presetOf body"]
  have prov: "orElse (jget body ''provider'') (JStr ''auto'') = JStr ''groq''"
    using assms(2) by (simp add: orElse_def nullish_def)
  show ?thesis
    by (simp add: chat_def assms(1) Let_def prov call split: fetch_result.splits sum.splits)
qed

text \<open>
  C7, as the code has it.  When provider A is named, the request is admitted, the first
  attempt is answered 404 and the catalog request of the re-resolution is answered, there
  are exactly two chat-completion requests, whatever the second one gives: the second is
  one retry, for the model that resolution picks from the fresh catalog with no requested
  model, and nothing is fetched after it.  When the retry succeeds the caller gets HTTP
  200 with its answer; when it is rejected, refused, unparsable or empty, the caller gets
  HTTP 502 with that failure.
\<close>

theorem C7_named_provider_404:
  assumes "rateLimit now (client_id header) w = (True, w1)"
      and "jget body ''provider'' = JStr ''groq''"
      and "configured (GROQ_API_KEY e)"
      and "script w1 = Answered c1 # Answered r1 # Answered c2 # f # rest"
      and "status r1 = 404"
  shows "chat e now header (Some body) w =
           ((case f of
               Rejected \<Rightarrow> Failure 502 GroqFailed (Some NetworkError)
             | Answered r2 \<Rightarrow>
                 if ok r2 then (case groq_answer r2 of
                                  Inr out \<Rightarrow> Reply 200 out
                                | Inl x \<Rightarrow> Failure 502 GroqFailed (Some x))
                 else Failure 502 GroqFailed (Some (HttpError Groq (status r2) (text_of r2)))),
            w1\<lparr>script := rest,
               log := log w1 @ [ReadBody, Fetch GroqModels,
                 Fetch (GroqChat (groq_req body
                   (groq_pick (jget body ''model'') (presetOf body) (groq_ids c1)))),
                 Fetch GroqModels,
                 Fetch (GroqChat (groq_req body
                   (groq_pick JUndefined (presetOf body) (groq_ids c2))))]\<rparr>)
       \<and> (f = Answered r2 \<and> ok r2 \<and> groq_answer r2 = Inr out \<longrightarrow>
            chat e now header (Some body) w =
              (Reply 200 out,
               w1\<lparr>script := rest,
                  log := log w1 @ [ReadBody, Fetch GroqModels,
                    Fetch (GroqChat (groq_req body
                      (groq_pick (jget body ''model'') (presetOf body) (groq_ids c1)))),
                    Fetch GroqModels,
                    Fetch (GroqChat (groq_req body
                      (groq_pick JUndefined (presetOf body) (groq_ids c2))))]\<rparr>))
       \<and> chat_models (log (snd (chat e now header (Some body) w))) =
           chat_models (log w1)
           @ [groq_pick (jget body ''model'') (presetOf body) (groq_ids c1),
              groq_pick JUndefined (presetOf body) (groq_ids c2)]"
proof -
  note run = chat_groq_404_retry [OF assms]
  have good: "chat e now header (Some body) w =
              (Reply 200 out,
               w1\<lparr>script := rest,
                  log := log w1 @ [ReadBody, Fetch GroqModels,
                    Fetch (GroqChat (groq_req body
                      (groq_pick (jget body ''model'') (presetOf body) (groq_ids c1)))),
                    Fetch GroqModels,
                    Fetch (GroqChat (groq_req body
                      (groq_pick JUndefined (presetOf body) (groq_ids c2))))]\<rparr>)"
    if "f = Answered r2" "ok r2" "groq_answer r2 = Inr out"
    unfolding run using that by simp
  have models: "chat_models (log (snd (chat e now header (Some body) w))) =
           chat_models (log w1)
           @ [groq_pick (jget body ''model'') (presetOf body) (groq_ids c1),
              groq_pick JUndefined (presetOf body) (groq_ids c2)]"
    unfolding run by (simp add: chat_models_append groq_req_def)
  from run good models show ?thesis by blast
qed

theorem C7_named_provider_404_witness:
  "fst (chat both_keys 0 None
          (Some (JObj [(''provider'', JStr ''groq''), (''preset'', JStr ''quality''),
                       (''model'', JStr ''llama-3.3-70b-versatile'')]))
          (world0 [groq_catalog [''llama-3.3-70b-versatile'', ''llama-3.1-8b-instant''],
                   refusal 404 [], groq_catalog [''llama-3.1-8b-instant''], groq_reply ''hi'']))
     = Reply 200 (toOpenAIResponse ''hi'')
   \<and> chat_models (log (snd (chat both_keys 0 None
          (Some (JObj [(''provider'', JStr ''groq''), (''preset'', JStr ''quality''),
                       (''model'', JStr ''llama-3.3-70b-versatile'')]))
          (world0 [groq_catalog [''llama-3.3-70b-versatile'', ''llama-3.1-8b-instant''],
                   refusal 404 [], groq_catalog [''llama-3.1-8b-instant''], groq_reply ''hi'']))))
     = [''llama-3.3-70b-versatile'', ''llama-3.1-8b-instant'']
   \<and> fst (chat both_keys 0 None
          (Some (JObj [(''provider'', JStr ''groq''), (''preset'', JStr ''quality''),
                       (''model'', JStr ''llama-3.3-70b-versatile'')]))
          (world0 [groq_catalog [''llama-3.3-70b-versatile'', ''llama-3.1-8b-instant''],
                   refusal 404 [], groq_catalog [''llama-3.1-8b-instant''], refusal 404 [],
                   groq_catalog [''llama-3.1-8b-instant''], groq_reply ''hi'']))
     = Failure 502 GroqFailed (Some (HttpError Groq 404 []))
   \<and> chat_models (log (snd (chat both_keys 0 None
          (Some (JObj [(''provider'', JStr ''groq''), (''preset'', JStr ''quality''),
                       (''model'', JStr ''llama-3.3-70b-versatile'')]))
          (world0 [groq_catalog [''llama-3.3-70b-versatile'', ''llama-3.1-8b-instant''],
                   refusal 404 [], groq_catalog [''llama-3.1-8b-instant''], refusal 404 [],
                   groq_catalog [''llama-3.1-8b-instant''], groq_reply ''hi'']))))
     = [''llama-3.3-70b-versatile'', ''llama-3.1-8b-instant'']"
proof -
  let ?c1 = "\<lparr>status = 200, body_text = Some [],
              body_json = Some (JObj [(''data'',
                JArr [JObj [(''id'', JStr ''llama-3.3-70b-versatile'')],
                      JObj [(''id'', JStr ''llama-3.1-8b-instant'')]])])\<rparr>"
  let ?r1 = "\<lparr>status = 404, body_text = Some [], body_json = None\<rparr>"
  let ?c2 = "\<lparr>status = 200, body_text = Some [],
              body_json = Some (JObj [(''data'', JArr [JObj [(''id'', JStr ''llama-3.1-8b-instant'')]])])\<rparr>"
  let ?r2 = "\<lparr>status = 200, body_text = Some [], body_json = Some (toOpenAIResponse ''hi'')\<rparr>"
  let ?sc = "[Answered ?c1, Answered ?r1, Answered ?c2, Answered ?r2]"
  let ?sd = "[Answered ?c1, Answered ?r1, Answered ?c2, Answered ?r1, Answered ?c2, Answered ?r2]"
  let ?body = "JObj [(''provider'', JStr ''groq''), (''preset'', JStr ''quality''),
                     (''model'', JStr ''llama-3.3-70b-versatile'')]"
  have sc: "script (snd (rateLimit 0 (client_id None) (world0 ?sc)))
              = Answered ?c1 # Answered ?r1 # Answered ?c2 # Answered ?r2 # []"
    by (rule rateLimit_fresh(2))
  have sd: "script (snd (rateLimit 0 (client_id None) (world0 ?sd)))
              = Answered ?c1 # Answered ?r1 # Answered ?c2 # Answered ?r1 # [Answered ?c2, Answered ?r2]"
    by (rule rateLimit_fresh(2))
  have p: "jget ?body ''provider'' = JStr ''groq''" "configured (GROQ_API_KEY both_keys)"
          "status ?r1 = 404"
    by (simp_all add: both_keys_def configured_def)
  have ans: "groq_answer ?r2 = Inr (toOpenAIResponse ''hi'')"
    by (simp add: groq_answer_def toOpenAIResponse_def)
  have p1: "groq_pick (jget ?body ''model'') (presetOf ?body) (groq_ids ?c1) = ''llama-3.3-70b-versatile''"
    by (simp add: groq_ids_def ok_def groq_pick_def selectModel_def)
  have p2: "groq_pick JUndefined (presetOf ?body) (groq_ids ?c2) = ''llama-3.1-8b-instant''"
    by (simp add: groq_ids_def ok_def groq_pick_def selectModel_def presetOf_def
        GROQ_QUALITY_PRIORITY_def)
  note t = C7_named_provider_404 [OF rateLimit_fresh(1) p(1,2) sc p(3), of ?r2 "toOpenAIResponse ''hi''"]
  note u = C7_named_provider_404 [OF rateLimit_fresh(1) p(1,2) sd p(3)]
  from t [THEN conjunct2, THEN conjunct1] ans
  have a: "fst (chat both_keys 0 None (Some ?body) (world0 ?sc))
             = Reply 200 (toOpenAIResponse ''hi'')"
    by (simp add: ok_def)
  have b: "chat_models (log (snd (chat both_keys 0 None (Some ?body) (world0 ?sc))))
             = [''llama-3.3-70b-versatile'', ''llama-3.1-8b-instant'']"
    unfolding t [THEN conjunct2, THEN conjunct2] p1 p2 rateLimit_fresh(3) by simp
  have c: "fst (chat both_keys 0 None (Some ?body) (world0 ?sd))
             = Failure 502 GroqFailed (Some (HttpError Groq 404 []))"
    unfolding u [THEN conjunct1] by (simp add: ok_def text_of_def)
  have d: "chat_models (log (snd (chat both_keys 0 None (Some ?body) (world0 ?sd))))
             = [''llama-3.3-70b-versatile'', ''llama-3.1-8b-instant'']"
    unfolding u [THEN conjunct2, THEN conjunct2] p1 p2 rateLimit_fresh(3) by simp
  from a b c d show ?thesis
    by (simp add: groq_catalog_def answer_def refusal_def groq_reply_def)
qed

theorem C7_named_provider_404_counterexample:
  "fst (chat both_keys 0 None
          (Some (JObj [(''provider'', JStr ''groq''), (''model'', JStr ''llama-3.1-8b-instant'')]))
          (world0 [groq_catalog [''llama-3.1-8b-instant''], refusal 404 [],
                   groq_catalog [''llama-3.1-8b-instant''], groq_reply ''hi'']))
     = Reply 200 (toOpenAIResponse ''hi'')
   \<and> chat_models (log (snd (chat both_keys 0 None
          (Some (JObj [(''provider'', JStr ''groq''), (''model'', JStr ''llama-3.1-8b-instant'')]))
          (world0 [groq_catalog [''llama-3.1-8b-instant''], refusal 404 [],
                   groq_catalog [''llama-3.1-8b-instant''], groq_reply ''hi'']))))
     = [''llama-3.1-8b-instant'', ''llama-3.1-8b-instant'']"
proof -
  let ?c = "\<lparr>status = 200, body_text = Some [],
             body_json = Some (JObj [(''data'', JArr [JObj [(''id'', JStr ''llama-3.1-8b-instant'')]])])\<rparr>"
  let ?r1 = "\<lparr>status = 404, body_text = Some [], body_json = None\<rparr>"
  let ?r2 = "\<lparr>status = 200, body_text = Some [], body_json = Some (toOpenAIResponse ''hi'')\<rparr>"
  let ?sc = "[Answered ?c, Answered ?r1, Answered ?c, Answered ?r2]"
  let ?body = "JObj [(''provider'', JStr ''groq''), (''model'', JStr ''llama-3.1-8b-instant'')]"
  let ?w1 = "snd (rateLimit 0 (client_id None) (world0 ?sc))"
  have sc: "script ?w1 = Answered ?c # Answered ?r1 # Answered ?c # Answered ?r2 # []"
    by (rule rateLimit_fresh(2))
  have ans: "groq_answer ?r2 = Inr (toOpenAIResponse ''hi'')"
    by (simp add: groq_answer_def toOpenAIResponse_def)
  have run: "chat both_keys 0 None (Some ?body) (world0 ?sc) =
           (Reply 200 (toOpenAIResponse ''hi''),
            ?w1\<lparr>script := [],
               log := log ?w1 @ [ReadBody, Fetch GroqModels,
                 Fetch (GroqChat (groq_req ?body
                   (groq_pick (jget ?body ''model'') (presetOf ?body) (groq_ids ?c)))),
                 Fetch GroqModels,
                 Fetch (GroqChat (groq_req ?body
                   (groq_pick JUndefined (presetOf ?body) (groq_ids ?c))))]\<rparr>)"
    by (rule chat_groq_404 [OF rateLimit_fresh(1) _ _ sc _ _ ans])
       (simp_all add: both_keys_def configured_def ok_def)
  have p1: "groq_pick (jget ?body ''model'') (presetOf ?body) (groq_ids ?c) = ''llama-3.1-8b-instant''"
    by (simp add: groq_ids_def ok_def groq_pick_def selectModel_def)
  have p2: "groq_pick JUndefined (presetOf ?body) (groq_ids ?c) = ''llama-3.1-8b-instant''"
    by (simp add: groq_ids_def ok_def groq_pick_def selectModel_def presetOf_def
        GROQ_SPEED_PRIORITY_def)
  have "fst (chat both_keys 0 None (Some ?body) (world0 ?sc)) = Reply 200 (toOpenAIResponse ''hi'')
      \<and> chat_models (log (snd (chat both_keys 0 None (Some ?body) (world0 ?sc))))
          = [''llama-3.1-8b-instant'', ''llama-3.1-8b-instant'']"
    unfolding run p1 p2
    by (simp add: chat_models_append rateLimit_fresh(3) groq_req_def)
  then show ?thesis
    by (simp add: groq_catalog_def answer_def refusal_def groq_reply_def)
qed


section \<open>Empty answers\<close>

lemma chat_groq_ok:
  assumes "rateLimit now (client_id header) w = (True, w1)"
      and "jget body ''provider'' = JStr ''groq''"
      and "configured (GROQ_API_KEY e)"
      and "script w1 = Answered c1 # Answered r1 # rest" and "ok r1"
  shows "fst (chat e now header (Some body) w) =
           (case groq_answer r1 of
              Inr out \<Rightarrow> Reply 200 out
            | Inl x \<Rightarrow> Failure 502 GroqFailed (Some x))"
proof -
  let ?w2 = "w1\<lparr>log := log w1 @ [ReadBody]\<rparr>"
  have sc: "script ?w2 = Answered c1 # Answered r1 # rest" using assms(4) by simp
  note call = callGroq_ok [OF assms(3) sc assms(5), of body "presetOf body"]
  have prov: "orElse (jget body ''provider'') (JStr ''auto'') = JStr ''groq''"
    using assms(2) by (simp add: orElse_def nullish_def)
  show ?thesis
    by (simp add: chat_def assms(1) Let_def prov call split: sum.splits)
qed

lemma chat_gemini_ok:
  assumes "rateLimit now (client_id header) w = (True, w1)"
      and "jget body ''provider'' = JStr ''gemini''"
      and "configured (GEMINI_API_KEY e)"
      and "script w1 = Answered c1 # Answered r1 # rest" and "ok r1"
  shows "fst (chat e now header (Some body) w) =
           (case gemini_answer r1 of
              Inr out \<Rightarrow> Reply 200 out
            | Inl x \<Rightarrow> Failure 502 GeminiFailed (Some x))"
proof -
  let ?w2 = "w1\<lparr>log := log w1 @ [ReadBody]\<rparr>"
  have sc: "script ?w2 = Answered c1 # Answered r1 # rest" using assms(4) by simp
  note call = callGemini_ok [OF assms(3) sc assms(5), of body "presetOf body"]
  have prov: "orElse (jget body ''provider'') (JStr ''auto'') = JStr ''gemini''"
    using assms(2) by (simp add: orElse_def nullish_def)
  show ?thesis
    by (simp add: chat_def assms(1) Let_def prov call split: sum.splits)
qed

lemma last_dropWhile: "dropWhile P xs \<noteq> [] \<Longrightarrow> last (dropWhile P xs) = last xs"
  by (induction xs) (auto split: if_splits)

lemma js_trim_idem: "js_trim (js_trim s) = js_trim s"
proof -
  let ?t = "dropWhile is_space s"
  let ?u = "dropWhile is_space (rev ?t)"
  have "dropWhile is_space (rev ?u) = rev ?u"
  proof (cases "?u = []")
    case True
    show ?thesis unfolding True by simp
  next
    case False
    have t: "?t \<noteq> []"
    proof
      assume e: "?t = []"
      have "?u = []" unfolding e by simp
      with False show False by contradiction
    qed
    have "hd (rev ?u) = last ?u" using False by (simp add: hd_rev)
    also have "\<dots> = last (rev ?t)" using False by (rule last_dropWhile)
    also have "\<dots> = hd ?t" using t by (simp add: last_rev)
    finally have "\<not> is_space (hd (rev ?u))" using t by (simp add: hd_dropWhile)
    then show ?thesis by (simp add: dropWhile_eq_self_iff)
  qed
  then show ?thesis by (simp add: js_trim_def)
qed

text \<open>What the two providers accept as an answer.\<close>

lemma groq_answer_Inr:
  "groq_answer res = Inr out \<longleftrightarrow>
     (\<exists>json txt. body_json res = Some json
        \<and> jget (jget (index0 (jget json ''choices'')) ''message'') ''content'' = JStr txt
        \<and> txt \<noteq> [] \<and> out = toOpenAIResponse txt)"
  by (auto simp: groq_answer_def split: option.splits jsval.splits)

lemma gemini_answer_Inr:
  "gemini_answer res = Inr out \<Longrightarrow>
     \<exists>txt. out = toOpenAIResponse txt \<and> txt \<noteq> [] \<and> js_trim txt = txt"
  by (auto simp: gemini_answer_def Let_def js_trim_idem split: option.splits jsval.splits if_splits)

text \<open>
  C6.  Provider A answers with a content of three spaces: the caller gets it back with
  HTTP 200, since lines 565--566 test the content for being a non-empty string and do
  not trim it.  The same text from provider B, whose lines 606--609 trim, is an empty
  response.
\<close>

theorem C6_blank_answer:
  "fst (chat both_keys 0 None (Some (JObj [(''provider'', JStr ''groq'')]))
          (world0 [answer 200 JNull, groq_reply ''   '']))
     = Reply 200 (toOpenAIResponse ''   '')
   \<and> fst (chat both_keys 0 None (Some (JObj [(''provider'', JStr ''gemini'')]))
          (world0 [answer 200 JNull, gemini_reply ''   '']))
     = Failure 502 GeminiFailed (Some (EmptyResponse Gemini))"
proof -
  let ?c = "\<lparr>status = 200, body_text = Some [], body_json = Some JNull\<rparr>"
  let ?a = "\<lparr>status = 200, body_text = Some [], body_json = Some (toOpenAIResponse ''   '')\<rparr>"
  let ?b = "\<lparr>status = 200, body_text = Some [],
             body_json = Some (JObj [(''candidates'',
               JArr [JObj [(''content'', JObj [(''parts'', JArr [JObj [(''text'', JStr ''   '')]])])]])])\<rparr>"
  have ga: "groq_answer ?a = Inr (toOpenAIResponse ''   '')"
    by (simp add: groq_answer_def toOpenAIResponse_def)
  have gb: "gemini_answer ?b = Inl (EmptyResponse Gemini)"
    by (simp add: gemini_answer_def orElse_def nullish_def js_trim_def is_space_def Let_def)
  have "fst (chat both_keys 0 None (Some (JObj [(''provider'', JStr ''groq'')]))
                 (world0 [Answered ?c, Answered ?a]))
          = (case groq_answer ?a of
               Inr out \<Rightarrow> Reply 200 out
             | Inl x \<Rightarrow> Failure 502 GroqFailed (Some x))"
    by (rule chat_groq_ok [OF rateLimit_fresh(1) _ _ rateLimit_fresh(2)])
       (simp_all add: both_keys_def configured_def ok_def)
  then have a: "fst (chat both_keys 0 None (Some (JObj [(''provider'', JStr ''groq'')]))
                 (world0 [Answered ?c, Answered ?a]))
             = Reply 200 (toOpenAIResponse ''   '')"
    unfolding ga by simp
  have "fst (chat both_keys 0 None (Some (JObj [(''provider'', JStr ''gemini'')]))
                 (world0 [Answered ?c, Answered ?b]))
          = (case gemini_answer ?b of
               Inr out \<Rightarrow> Reply 200 out
             | Inl x \<Rightarrow> Failure 502 GeminiFailed (Some x))"
    by (rule chat_gemini_ok [OF rateLimit_fresh(1) _ _ rateLimit_fresh(2)])
       (simp_all add: both_keys_def configured_def ok_def)
  then have b: "fst (chat both_keys 0 None (Some (JObj [(''provider'', JStr ''gemini'')]))
                 (world0 [Answered ?c, Answered ?b]))
             = Failure 502 GeminiFailed (Some (EmptyResponse Gemini))"
    unfolding gb by simp
  show ?thesis
    using a b by (simp add: answer_def groq_reply_def gemini_reply_def)
qed


section \<open>Fallback\<close>

lemma contacts_append: "contacts p (xs @ ys) = contacts p xs + contacts p ys"
  by (simp add: contacts_def)

lemma contacts_single: "contacts p [ev] = (if contacted ev = Some p then 1 else 0)"
  by (simp add: contacts_def)

lemma contacts_Cons:
  "contacts p (ev # evs) = (if contacted ev = Some p then 1 else 0) + contacts p evs"
  "contacts p [] = 0"
  by (simp_all add: contacts_def)

lemma rateLimit_contacts: "contacts p (log (snd (rateLimit now ident w))) = contacts p (log w)"
  by (simp add: rateLimit_def Let_def split_beta kv_get_def kv_put_def contacts_def)

lemma fetch_contacts:
  "contacts p (log (snd (fetch rq w))) = contacts p (log w) + contacts p [Fetch rq]"
  by (simp add: fetch_log contacts_append)

lemma resolveGroqModel_contacts:
  "contacts Gemini (log (snd (resolveGroqModel requested pre w))) = contacts Gemini (log w)"
  by (simp add: resolveGroqModel_def listGroqModels_def split_beta fetch_contacts contacts_single
      split: fetch_result.split sum.split)

lemma resolveGeminiModel_contacts:
  "contacts Gemini (log (snd (resolveGeminiModel requested pre w))) = contacts Gemini (log w) + 1"
  by (simp add: resolveGeminiModel_def listGeminiModels_def split_beta fetch_contacts contacts_single
      split: fetch_result.split sum.split)

lemma callGroq_contacts:
  "contacts Gemini (log (snd (callGroq e body pre w))) = contacts Gemini (log w)"
  by (simp add: callGroq_def Let_def split_beta fetch_contacts resolveGroqModel_contacts
      contacts_single split: fetch_result.split sum.split)

lemma callGemini_contacts:
  "configured (GEMINI_API_KEY e) \<Longrightarrow>
   contacts Gemini (log w) < contacts Gemini (log (snd (callGemini e body pre w)))"
  by (simp add: callGemini_def Let_def split_beta fetch_contacts resolveGeminiModel_contacts
      contacts_single split: fetch_result.split sum.split)


text \<open>The handler reads six fields of the body, the preset through \<open>presetOf\<close>.\<close>

lemma chat_same_fields:
  assumes "jget b ''provider'' = jget b' ''provider''" and "jget b ''model'' = jget b' ''model''"
      and "jget b ''messages'' = jget b' ''messages''"
      and "jget b ''temperature'' = jget b' ''temperature''"
      and "jget b ''max_tokens'' = jget b' ''max_tokens''"
      and "presetOf b = presetOf b'"
  shows "chat e now header (Some b) w = chat e now header (Some b') w"
proof -
  note f = assms(1-5)
  have rq: "groq_req b = groq_req b'"
    by (rule ext) (simp add: groq_req_def f)
  have gb: "openAIToGeminiBody b = openAIToGeminiBody b'"
    by (simp add: openAIToGeminiBody_def f)
  have a: "callGroq e b pre v = callGroq e b' pre v" for pre v
    unfolding callGroq_def f rq by (rule refl)
  have g: "callGemini e b pre v = callGemini e b' pre v" for pre v
    unfolding callGemini_def f gb by (rule refl)
  show ?thesis
    unfolding chat_def Let_def option.case f assms(6) a g by (rule refl)
qed

text \<open>The branch taken when the provider named is neither of the two, provider A failing.\<close>

lemma chat_auto:
  assumes "rateLimit now (client_id header) w = (True, w1)"
      and "jget body ''provider'' \<noteq> JStr ''groq''" and "jget body ''provider'' \<noteq> JStr ''gemini''"
      and "callGroq e body (presetOf body) (w1\<lparr>log := log w1 @ [ReadBody]\<rparr>) = (Inl x1, w3)"
  shows "chat e now header (Some body) w =
           (if configured (GEMINI_API_KEY e) then
              (case callGemini e body (presetOf body) w3 of
                 (Inr out, w4) \<Rightarrow> (Reply 200 out, w4)
               | (Inl x2, w4) \<Rightarrow> (Failure 500 FallbackFailed (Some x2), w4))
            else (Failure 502 GroqFailedNoFallback (Some x1), w3))"
proof -
  have prov: "orElse (jget body ''provider'') (JStr ''auto'') \<noteq> JStr ''groq''"
             "orElse (jget body ''provider'') (JStr ''auto'') \<noteq> JStr ''gemini''"
    using assms(2,3) by (simp_all add: orElse_def)
  show ?thesis
    by (simp add: chat_def assms(1,4) Let_def prov)
qed

text \<open>
  C1, as the code has it.  When the provider is \<^verbatim>\<open>auto\<close> (or absent, or anything but the
  two names), the request is admitted and the call of provider A fails, provider B is
  called exactly when its credential is configured: then its answer is returned with
  HTTP 200, or its failure with HTTP 500.  When the credential is not configured, the
  failure of provider A is returned with HTTP 502 and provider B is not contacted.
  \<^verbatim>\<open>enable_fallback\<close> has no part in it: two requests that differ in that field only
  are handled alike.
\<close>

theorem C1_auto_fallback:
  assumes "rateLimit now (client_id header) w = (True, w1)"
      and "jget body ''provider'' \<noteq> JStr ''groq''" and "jget body ''provider'' \<noteq> JStr ''gemini''"
      and "callGroq e body (presetOf body) (w1\<lparr>log := log w1 @ [ReadBody]\<rparr>) = (Inl x1, w3)"
  shows "chat e now header (Some body) w =
           (if configured (GEMINI_API_KEY e) then
              (case callGemini e body (presetOf body) w3 of
                 (Inr out, w4) \<Rightarrow> (Reply 200 out, w4)
               | (Inl x2, w4) \<Rightarrow> (Failure 500 FallbackFailed (Some x2), w4))
            else (Failure 502 GroqFailedNoFallback (Some x1), w3))
       \<and> (contacts Gemini (log w) < contacts Gemini (log (snd (chat e now header (Some body) w)))
            \<longleftrightarrow> configured (GEMINI_API_KEY e))
       \<and> ((\<forall>k. k \<noteq> ''enable_fallback'' \<longrightarrow> jget body' k = jget body k) \<longrightarrow>
            chat e now header (Some body') w = chat e now header (Some body) w)"
proof -
  note run = chat_auto [OF assms]
  have same: "chat e now header (Some body') w = chat e now header (Some body) w"
    if "\<forall>k. k \<noteq> ''enable_fallback'' \<longrightarrow> jget body' k = jget body k"
    using that by (intro chat_same_fields) (simp_all add: presetOf_def)
  have "contacts Gemini (log w1) = contacts Gemini (log w)"
    using rateLimit_contacts [of Gemini now "client_id header" w] assms(1) by simp
  moreover have "contacts Gemini (log w3) = contacts Gemini (log (w1\<lparr>log := log w1 @ [ReadBody]\<rparr>))"
    using callGroq_contacts [of e body "presetOf body" "w1\<lparr>log := log w1 @ [ReadBody]\<rparr>"] assms(4)
    by simp
  ultimately have base: "contacts Gemini (log w3) = contacts Gemini (log w)"
    by (simp add: contacts_append contacts_single)
  have "contacts Gemini (log w) < contacts Gemini (log (snd (chat e now header (Some body) w)))
          \<longleftrightarrow> configured (GEMINI_API_KEY e)"
  proof (cases "configured (GEMINI_API_KEY e)")
    case True
    have "snd (chat e now header (Some body) w) = snd (callGemini e body (presetOf body) w3)"
      unfolding run using True by (simp split: prod.splits sum.splits)
    then show ?thesis
      using callGemini_contacts [OF True, of w3 body "presetOf body"] base True by simp
  next
    case False
    have "snd (chat e now header (Some body) w) = w3"
      unfolding run using False by simp
    then show ?thesis using base False by simp
  qed
  with run same show ?thesis by simp
qed

lemma server_error_not_decommissioned: "\<not> isDecommissionedHttp 500 t"
  by (simp add: isDecommissionedHttp_def)

theorem C1_auto_fallback_witness:
  "fst (chat \<lparr>GROQ_API_KEY = Some ''gk'', GEMINI_API_KEY = None\<rparr> 0 None
          (Some (JObj [(''provider'', JStr ''auto'')]))
          (world0 [answer 200 JNull, refusal 500 ''boom'']))
     = Failure 502 GroqFailedNoFallback (Some (HttpError Groq 500 ''boom''))
   \<and> contacts Gemini (log (snd (chat \<lparr>GROQ_API_KEY = Some ''gk'', GEMINI_API_KEY = None\<rparr> 0 None
          (Some (JObj [(''provider'', JStr ''auto'')]))
          (world0 [answer 200 JNull, refusal 500 ''boom'']))))
     = 0
   \<and> fst (chat \<lparr>GROQ_API_KEY = Some ''gk'', GEMINI_API_KEY = None\<rparr> 0 None
          (Some (JObj [(''provider'', JStr ''auto''), (''enable_fallback'', JBool True)]))
          (world0 [answer 200 JNull, refusal 500 ''boom'']))
     = Failure 502 GroqFailedNoFallback (Some (HttpError Groq 500 ''boom''))"
proof -
  let ?e = "\<lparr>GROQ_API_KEY = Some ''gk'', GEMINI_API_KEY = None\<rparr>"
  let ?body' = "JObj [(''provider'', JStr ''auto''), (''enable_fallback'', JBool True)]"
  let ?c = "\<lparr>status = 200, body_text = Some [], body_json = Some JNull\<rparr>"
  let ?r = "\<lparr>status = 500, body_text = Some ''boom'', body_json = None\<rparr>"
  let ?sc = "[Answered ?c, Answered ?r]"
  let ?body = "JObj [(''provider'', JStr ''auto'')]"
  let ?w1 = "snd (rateLimit 0 (client_id None) (world0 ?sc))"
  let ?w2 = "?w1\<lparr>log := log ?w1 @ [ReadBody]\<rparr>"
  have sc: "script ?w2 = Answered ?c # Answered ?r # []"
    by (simp add: rateLimit_fresh(2))
  have call: "callGroq ?e ?body (presetOf ?body) ?w2 =
           (Inl (HttpError Groq (status ?r) (text_of ?r)),
            ?w2\<lparr>script := [],
              log := log ?w2 @ [Fetch GroqModels,
                Fetch (GroqChat (groq_req ?body
                  (groq_pick (jget ?body ''model'') (presetOf ?body) (groq_ids ?c))))]\<rparr>)"
    by (rule callGroq_terminal [OF _ sc])
       (simp_all add: configured_def ok_def server_error_not_decommissioned)
  have p: "jget ?body ''provider'' \<noteq> JStr ''groq''" "jget ?body ''provider'' \<noteq> JStr ''gemini''"
    by simp_all
  note t = C1_auto_fallback [OF rateLimit_fresh(1) p call, of ?body']
  have nk: "\<not> configured (GEMINI_API_KEY ?e)" by (simp add: configured_def)
  have zero: "contacts Gemini (log (world0 ?sc)) = 0" by (simp add: world0_def contacts_def)
  from t have eq: "chat ?e 0 None (Some ?body) (world0 ?sc) =
           (if configured (GEMINI_API_KEY ?e) then
              (case callGemini ?e ?body (presetOf ?body)
                      (?w2\<lparr>script := [],
                         log := log ?w2 @ [Fetch GroqModels,
                           Fetch (GroqChat (groq_req ?body
                             (groq_pick (jget ?body ''model'') (presetOf ?body) (groq_ids ?c))))]\<rparr>) of
                 (Inr out, w4) \<Rightarrow> (Reply 200 out, w4)
               | (Inl x2, w4) \<Rightarrow> (Failure 500 FallbackFailed (Some x2), w4))
            else (Failure 502 GroqFailedNoFallback (Some (HttpError Groq (status ?r) (text_of ?r))),
                  ?w2\<lparr>script := [],
                         log := log ?w2 @ [Fetch GroqModels,
                           Fetch (GroqChat (groq_req ?body
                             (groq_pick (jget ?body ''model'') (presetOf ?body) (groq_ids ?c))))]\<rparr>))"
    by (rule conjunct1)
  have run: "fst (chat ?e 0 None (Some ?body) (world0 ?sc))
          = Failure 502 GroqFailedNoFallback (Some (HttpError Groq (status ?r) (text_of ?r)))"
    unfolding eq using nk by simp
  from t have "contacts Gemini (log (world0 ?sc))
                 < contacts Gemini (log (snd (chat ?e 0 None (Some ?body) (world0 ?sc))))
               \<longleftrightarrow> configured (GEMINI_API_KEY ?e)"
    by blast
  with nk zero
  have none: "contacts Gemini (log (snd (chat ?e 0 None (Some ?body) (world0 ?sc)))) = 0"
    by simp
  have agree: "\<forall>k. k \<noteq> ''enable_fallback'' \<longrightarrow> jget ?body' k = jget ?body k"
    by simp
  with t have "chat ?e 0 None (Some ?body') (world0 ?sc) = chat ?e 0 None (Some ?body) (world0 ?sc)"
    by blast
  then have flag: "fst (chat ?e 0 None (Some ?body') (world0 ?sc))
          = Failure 502 GroqFailedNoFallback (Some (HttpError Groq (status ?r) (text_of ?r)))"
    using run by simp
  show ?thesis
    using run none flag by (simp add: answer_def refusal_def text_of_def)
qed

theorem C1_auto_fallback_counterexample:
  "fst (chat both_keys 0 None
          (Some (JObj [(''provider'', JStr ''auto''), (''enable_fallback'', JBool False)]))
          (world0 [answer 200 JNull, refusal 500 ''boom'', answer 200 JNull, gemini_reply ''hi'']))
     = Reply 200 (toOpenAIResponse ''hi'')
   \<and> contacts Gemini (log (snd (chat both_keys 0 None
          (Some (JObj [(''provider'', JStr ''auto''), (''enable_fallback'', JBool False)]))
          (world0 [answer 200 JNull, refusal 500 ''boom'', answer 200 JNull, gemini_reply ''hi'']))))
     = 2"
proof -
  let ?c = "\<lparr>status = 200, body_text = Some [], body_json = Some JNull\<rparr>"
  let ?r = "\<lparr>status = 500, body_text = Some ''boom'', body_json = None\<rparr>"
  let ?g = "\<lparr>status = 200, body_text = Some [],
             body_json = Some (JObj [(''candidates'',
               JArr [JObj [(''content'', JObj [(''parts'', JArr [JObj [(''text'', JStr ''hi'')]])])]])])\<rparr>"
  let ?sc = "[Answered ?c, Answered ?r, Answered ?c, Answered ?g]"
  let ?body = "JObj [(''provider'', JStr ''auto''), (''enable_fallback'', JBool False)]"
  let ?w1 = "snd (rateLimit 0 (client_id None) (world0 ?sc))"
  let ?w2 = "?w1\<lparr>log := log ?w1 @ [ReadBody]\<rparr>"
  let ?w3 = "?w2\<lparr>script := [Answered ?c, Answered ?g],
              log := log ?w2 @ [Fetch GroqModels,
                Fetch (GroqChat (groq_req ?body
                  (groq_pick (jget ?body ''model'') (presetOf ?body) (groq_ids ?c))))]\<rparr>"
  have k: "configured (GROQ_API_KEY both_keys)" "configured (GEMINI_API_KEY both_keys)"
    by (simp_all add: both_keys_def configured_def)
  have sc: "script ?w2 = Answered ?c # Answered ?r # [Answered ?c, Answered ?g]"
    by (simp add: rateLimit_fresh(2))
  have callA: "callGroq both_keys ?body (presetOf ?body) ?w2 =
           (Inl (HttpError Groq (status ?r) (text_of ?r)), ?w3)"
    by (rule callGroq_terminal [OF k(1) sc]) (simp_all add: ok_def server_error_not_decommissioned)
  have sc3: "script ?w3 = Answered ?c # Answered ?g # []" by simp
  have callB: "callGemini both_keys ?body (presetOf ?body) ?w3 =
           (gemini_answer ?g,
            ?w3\<lparr>script := [],
              log := log ?w3 @ [Fetch GeminiModels,
                Fetch (GeminiChat (gemini_pick (jget ?body ''model'') (presetOf ?body) (gemini_ids ?c))
                         (openAIToGeminiBody ?body))]\<rparr>)"
    by (rule callGemini_ok [OF k(2) sc3]) (simp add: ok_def)
  have ans: "gemini_answer ?g = Inr (toOpenAIResponse ''hi'')"
    by (simp add: gemini_answer_def orElse_def nullish_def js_trim_def is_space_def Let_def)
  have p: "jget ?body ''provider'' \<noteq> JStr ''groq''" "jget ?body ''provider'' \<noteq> JStr ''gemini''"
    by simp_all
  have zero: "contacts Gemini (log ?w1) = 0"
    unfolding rateLimit_contacts by (simp add: world0_def contacts_def)
  have "chat both_keys 0 None (Some ?body) (world0 ?sc) =
          (Reply 200 (toOpenAIResponse ''hi''),
           ?w3\<lparr>script := [],
              log := log ?w3 @ [Fetch GeminiModels,
                Fetch (GeminiChat (gemini_pick (jget ?body ''model'') (presetOf ?body) (gemini_ids ?c))
                         (openAIToGeminiBody ?body))]\<rparr>)"
    apply (subst chat_auto [OF rateLimit_fresh(1) p callA])
    apply (subst callB)
    apply (subst ans)
    using k(2) apply simp
    done
  then have "fst (chat both_keys 0 None (Some ?body) (world0 ?sc)) = Reply 200 (toOpenAIResponse ''hi'')
      \<and> contacts Gemini (log (snd (chat both_keys 0 None (Some ?body) (world0 ?sc))))
          = contacts Gemini (log ?w1) + 2"
    by (simp add: contacts_append contacts_Cons)
  then have "fst (chat both_keys 0 None (Some ?body) (world0 ?sc)) = Reply 200 (toOpenAIResponse ''hi'')
      \<and> contacts Gemini (log (snd (chat both_keys 0 None (Some ?body) (world0 ?sc)))) = 2"
    unfolding zero by simp
  then show ?thesis
    by (simp add: answer_def refusal_def gemini_reply_def)
qed


section \<open>Rate limit before the body\<close>

lemma counted_log: "counted ident t k (w\<lparr>log := l\<rparr>) = counted ident t k w"
  by (simp add: counted_def)

lemma chat_rate_limited:
  "rateLimit now (client_id header) w = (False, w1) \<Longrightarrow>
   chat e now header raw w = (Failure 429 RateLimited None, w1)"
  by (simp add: chat_def)

lemma chat_malformed:
  "rateLimit now (client_id header) w = (True, w1) \<Longrightarrow>
   chat e now header None w = (Failure 500 ServerError None, w1\<lparr>log := log w1 @ [ReadBody]\<rparr>)"
  by (simp add: chat_def Let_def)

text \<open>
  C9.  Let the bucket of the client hold the count \<open>k\<close>.  A request whose body is not
  JSON leaves the count at \<open>k + 1\<close>; it is answered 500 \<^verbatim>\<open>server_error\<close> when admitted
  (\<open>k < 60\<close>), the body being read after the counter was written, and 429 otherwise.  A
  request over the limit (\<open>60 \<le> k\<close>) is answered 429 whatever its body is, and nothing
  happens after the write of the counter: the body is not read.
\<close>

theorem C9_rate_limit_before_body:
  assumes "counted (client_id header) now k w"
  shows "counted (client_id header) now (k + 1) (snd (chat e now header None w))
       \<and> fst (chat e now header None w)
           = (if k < 60 then Failure 500 ServerError None else Failure 429 RateLimited None)
       \<and> log (snd (chat e now header None w))
           = log w @ [KvGet (bucket (client_id header) now),
                      KvPut (bucket (client_id header) now) (nat_to_dec (k + 1)) 660]
                   @ (if k < 60 then [ReadBody] else [])
       \<and> (60 \<le> k \<longrightarrow>
            fst (chat e now header raw w) = Failure 429 RateLimited None
          \<and> counted (client_id header) now (k + 1) (snd (chat e now header raw w))
          \<and> log (snd (chat e now header raw w))
              = log w @ [KvGet (bucket (client_id header) now),
                         KvPut (bucket (client_id header) now) (nat_to_dec (k + 1)) 660])"
proof -
  let ?r = "rateLimit now (client_id header) w"
  note step = rateLimit_counted [OF assms refl]
  show ?thesis
  proof (cases "k < 60")
    case True
    with step have rl: "?r = (True, snd ?r)" by (simp add: prod_eq_iff)
    show ?thesis
      unfolding chat_malformed [OF rl] using step True by (simp add: counted_log)
  next
    case False
    with step have rl: "?r = (False, snd ?r)" by (simp add: prod_eq_iff)
    show ?thesis
      unfolding chat_rate_limited [OF rl] using step False by simp
  qed
qed

theorem C9_rate_limit_before_body_witness:
  "fst (chat both_keys 0 None None (world0 [])) = Failure 500 ServerError None
   \<and> log (snd (chat both_keys 0 None None (world0 [])))
       = [KvGet (bucket ''anon'' 0), KvPut (bucket ''anon'' 0) (nat_to_dec 1) 660, ReadBody]
   \<and> fst (chat both_keys 0 None (Some JNull)
            \<lparr>kv = [bucket ''anon'' 0 \<mapsto> (nat_to_dec 60, 600000)], script = [], log = []\<rparr>)
       = Failure 429 RateLimited None
   \<and> log (snd (chat both_keys 0 None (Some JNull)
            \<lparr>kv = [bucket ''anon'' 0 \<mapsto> (nat_to_dec 60, 600000)], script = [], log = []\<rparr>))
       = [KvGet (bucket ''anon'' 0), KvPut (bucket ''anon'' 0) (nat_to_dec 61) 660]"
proof -
  let ?w = "\<lparr>kv = [bucket ''anon'' 0 \<mapsto> (nat_to_dec 60, 600000)], script = [], log = []\<rparr>"
  have c0: "counted (client_id None) 0 0 (world0 [])"
    by (simp add: counted_def world0_def)
  have c60: "counted (client_id None) 0 60 ?w"
    by (simp add: counted_def client_id_def)
  from C9_rate_limit_before_body [OF c0, of both_keys None]
  have a: "fst (chat both_keys 0 None None (world0 [])) = Failure 500 ServerError None
           \<and> log (snd (chat both_keys 0 None None (world0 [])))
               = [KvGet (bucket ''anon'' 0), KvPut (bucket ''anon'' 0) (nat_to_dec 1) 660, ReadBody]"
    by (simp add: client_id_def world0_def)
  from C9_rate_limit_before_body [OF c60, of both_keys "Some JNull"]
  have b: "fst (chat both_keys 0 None (Some JNull) ?w) = Failure 429 RateLimited None
           \<and> log (snd (chat both_keys 0 None (Some JNull) ?w))
               = [KvGet (bucket ''anon'' 0), KvPut (bucket ''anon'' 0) (nat_to_dec 61) 660]"
    by (simp add: client_id_def)
  from a b show ?thesis by simp
qed

section \<open>Presets\<close>

text \<open>
  C8.  The preset is \<open>Quality\<close> for the string \<^verbatim>\<open>quality\<close> and \<open>Speed\<close> for everything
  else, a missing field included.  A request whose preset is not \<^verbatim>\<open>quality\<close> is handled
  as the same request with the preset \<^verbatim>\<open>speed\<close>: same reply, same upstream requests.
\<close>

theorem C8_preset_coercion:
  "presetOf body = (if jget body ''preset'' = JStr ''quality'' then Quality else Speed)
   \<and> ((\<forall>k. k \<noteq> ''preset'' \<longrightarrow> jget body k = jget body' k)
        \<and> jget body ''preset'' \<noteq> JStr ''quality'' \<and> jget body' ''preset'' = JStr ''speed'' \<longrightarrow>
       chat e now header (Some body) w = chat e now header (Some body') w)"
proof -
  have "chat e now header (Some body) w = chat e now header (Some body') w"
    if "\<forall>k. k \<noteq> ''preset'' \<longrightarrow> jget body k = jget body' k"
      and "jget body ''preset'' \<noteq> JStr ''quality''" and "jget body' ''preset'' = JStr ''speed''"
    using that by (intro chat_same_fields) (simp_all add: presetOf_def)
  then show ?thesis by (simp add: presetOf_def)
qed

theorem C8_preset_coercion_witness:
  "presetOf (JObj [(''provider'', JStr ''groq''), (''preset'', JStr ''Quality'')]) = Speed
   \<and> presetOf (JObj [(''preset'', JNull)]) = Speed
   \<and> presetOf (JObj []) = Speed
   \<and> chat both_keys 0 None
        (Some (JObj [(''provider'', JStr ''groq''), (''preset'', JStr ''Quality'')])) (world0 [])
     = chat both_keys 0 None
        (Some (JObj [(''provider'', JStr ''groq''), (''preset'', JStr ''speed'')])) (world0 [])"
proof -
  let ?b = "JObj [(''provider'', JStr ''groq''), (''preset'', JStr ''Quality'')]"
  let ?b' = "JObj [(''provider'', JStr ''groq''), (''preset'', JStr ''speed'')]"
  have h: "(\<forall>k. k \<noteq> ''preset'' \<longrightarrow> jget ?b k = jget ?b' k)
           \<and> jget ?b ''preset'' \<noteq> JStr ''quality'' \<and> jget ?b' ''preset'' = JStr ''speed''"
    by simp
  have a: "presetOf ?b = Speed"
    using C8_preset_coercion [of ?b] by simp
  have b: "presetOf (JObj [(''preset'', JNull)]) = Speed"
    using C8_preset_coercion [of "JObj [(''preset'', JNull)]"] by simp
  have c: "presetOf (JObj []) = Speed"
    using C8_preset_coercion [of "JObj []"] by simp
  have d: "chat both_keys 0 None (Some ?b) (world0 []) = chat both_keys 0 None (Some ?b') (world0 [])"
    using C8_preset_coercion [of ?b ?b' both_keys 0 None "world0 []"] h by blast
  from a b c d show ?thesis by simp
qed

end
